theory Spec2Isabelle
  imports
    Complex_Main
    "HOL-Library.AList"
    "HOL-Library.Log_Nat"
    "HOL-Library.Char_ord"
    "HOL-Library.List_Lexorder"
    "HOL-Library.Product_Lexorder"
    "HOL-Library.Multiset"
begin

section \<open>Values held by a table\<close>

text \<open>
  The dashboard script \<^verbatim>\<open>ga.py\<close> keeps its data in a pandas DataFrame. A cell of
  that table is a Python value: text, a float (the float \<open>NaN\<close> is pandas' marker for a
  missing value), or an integer (the derived column \<^verbatim>\<open>Start Year\<close> holds Python ints).

  A float is an IEEE 754 binary64 number. A finite one is represented by the rational
  number it denotes (the two zeros are identified); the arithmetic below rounds to
  binary64 where Python does. A column that pandas stores as \<^verbatim>\<open>int64\<close> (a column all
  of whose cells are integer literals) holds integer cells.
\<close>

datatype float64 = Finite rat | PosInf | NegInf | NaN

datatype cell = PyStr string | PyFloat float64 | PyInt int

text \<open>
  Exceptions are values. All but the last derive from Python's \<^verbatim>\<open>Exception\<close>;
  \<^verbatim>\<open>KeyboardInterrupt\<close> derives from \<^verbatim>\<open>BaseException\<close> only, so a handler
  \<^verbatim>\<open>except Exception\<close> lets it through.
\<close>

datatype py_exception =
    FileNotFoundError
  | ParserError
  | KeyError string
  | ValueError
  | AttributeError
  | TypeError
  | OverflowError
  | KeyboardInterrupt

fun is_Exception :: "py_exception \<Rightarrow> bool" where
  "is_Exception KeyboardInterrupt = False"
| "is_Exception _ = True"

text \<open>Sequencing of computations that may raise: the first exception ends the run.\<close>

definition and_then :: "py_exception + 'a \<Rightarrow> ('a \<Rightarrow> py_exception + 'b) \<Rightarrow> py_exception + 'b" where
  "and_then m f = (case m of Inl e \<Rightarrow> Inl e | Inr x \<Rightarrow> f x)"

section \<open>Data frames\<close>

text \<open>
  A DataFrame is its columns in order, each a name and the list of its cells.
  \<^verbatim>\<open>df[col]\<close> reads a column and raises \<^verbatim>\<open>KeyError\<close> when there is none of that name;
  \<^verbatim>\<open>df[col] = values\<close> replaces the column of that name in place, or appends a new
  column at the end when there is none.
\<close>

type_synonym dataframe = "(string \<times> cell list) list"

definition getcol :: "dataframe \<Rightarrow> string \<Rightarrow> py_exception + cell list" where
  "getcol df col = (case map_of df col of None \<Rightarrow> Inl (KeyError col) | Some vs \<Rightarrow> Inr vs)"

definition setcol :: "dataframe \<Rightarrow> string \<Rightarrow> cell list \<Rightarrow> dataframe" where
  "setcol df col vs = AList.update col vs df"

definition columns :: "dataframe \<Rightarrow> string list" where
  "columns df = map fst df"

text \<open>The number of rows (\<^verbatim>\<open>len(df)\<close>): the length of the columns.\<close>

definition nrows :: "dataframe \<Rightarrow> nat" where
  "nrows df = (case df of [] \<Rightarrow> 0 | (_, vs) # _ \<Rightarrow> length vs)"

text \<open>A DataFrame as \<^verbatim>\<open>read_csv\<close> builds it: distinct column names, columns of one length.\<close>

definition wf_df :: "dataframe \<Rightarrow> bool" where
  "wf_df df \<longleftrightarrow> distinct (map fst df) \<and> (\<forall>(c, vs) \<in> set df. length vs = nrows df)"

text \<open>Row \<open>i\<close> of a table: the cell of every column at that position, under the column's name.\<close>

definition row_at :: "dataframe \<Rightarrow> nat \<Rightarrow> (string \<times> cell) list" where
  "row_at df i = map (\<lambda>(c, vs). (c, vs ! i)) df"

definition rows_of :: "dataframe \<Rightarrow> (string \<times> cell) list list" where
  "rows_of df = map (row_at df) [0..<nrows df]"

text \<open>\<^verbatim>\<open>df.iloc[idxs]\<close>: the rows at the given positions, in the given order.\<close>

definition iloc :: "nat list \<Rightarrow> dataframe \<Rightarrow> dataframe" where
  "iloc idxs df = map (\<lambda>(c, vs). (c, map (\<lambda>i. vs ! i) idxs)) df"

section \<open>The cleaner: \<^verbatim>\<open>load_and_clean_data\<close>\<close>

definition finance_cols :: "string list" where
  "finance_cols =
     [''Revenue (Plan)'', ''Capital (Plan)'', ''Total (Plan)'',
      ''Revenue (Non-Plan)'', ''Capital (Non-Plan)'', ''Total (Non-Plan)'',
      ''Total Plan & Non-Plan'']"

text \<open>\<^verbatim>\<open>.replace({'-': np.nan, 'NA': np.nan})\<close> on one cell.\<close>

definition replace_tokens :: "cell \<Rightarrow> cell" where
  "replace_tokens c = (if c = PyStr ''-'' \<or> c = PyStr ''NA'' then PyFloat NaN else c)"

text \<open>
  \<^verbatim>\<open>pd.to_numeric(_, errors='coerce')\<close> on one cell. The conversion of a text to a float
  is pandas' own; it is the parameter \<open>to_num\<close>, which gives \<open>NaN\<close> for a text that is
  not a number. A cell that is a number already is kept.
\<close>

definition to_numeric :: "(string \<Rightarrow> float64) \<Rightarrow> cell \<Rightarrow> cell" where
  "to_numeric to_num c = (case c of PyStr s \<Rightarrow> PyFloat (to_num s) | _ \<Rightarrow> c)"

text \<open>\<^verbatim>\<open>.fillna(0)\<close> on one cell.\<close>

definition fillna0 :: "cell \<Rightarrow> cell" where
  "fillna0 c = (if c = PyFloat NaN then PyFloat (Finite 0) else c)"

text \<open>One assignment \<^verbatim>\<open>df[col] = f(df[col])\<close>, \<open>f\<close> working cell by cell.\<close>

definition assign_map :: "(cell \<Rightarrow> cell) \<Rightarrow> string \<Rightarrow> dataframe \<Rightarrow> py_exception + dataframe" where
  "assign_map f col df = and_then (getcol df col) (\<lambda>vs. Inr (setcol df col (map f vs)))"

text \<open>The body of the loop over \<^verbatim>\<open>finance_cols\<close>: its three assignments.\<close>

definition clean_col :: "(string \<Rightarrow> float64) \<Rightarrow> string \<Rightarrow> dataframe \<Rightarrow> py_exception + dataframe" where
  "clean_col to_num col df =
     and_then (assign_map replace_tokens col df) (\<lambda>df.
     and_then (assign_map (to_numeric to_num) col df) (\<lambda>df.
     assign_map fillna0 col df))"

fun clean_cols :: "(string \<Rightarrow> float64) \<Rightarrow> string list \<Rightarrow> dataframe \<Rightarrow> py_exception + dataframe" where
  "clean_cols to_num [] df = Inr df"
| "clean_cols to_num (col # cols) df = and_then (clean_col to_num col df) (clean_cols to_num cols)"

text \<open>
  Python's \<^verbatim>\<open>int(s)\<close> on a text, base 10: white space around the literal is dropped,
  one sign may lead, and the digits may be grouped by single underscores. \<open>None\<close> is
  \<^verbatim>\<open>ValueError\<close>. Characters are bytes here, and the literals of the model are the
  ASCII ones: white space is the six ASCII blanks and the digits are \<^verbatim>\<open>0\<close> to \<^verbatim>\<open>9\<close>.
  (Python also drops white space outside ASCII, reads the decimal digits of other
  scripts, and refuses literals beyond a configurable number of digits.)
\<close>

definition is_space :: "char \<Rightarrow> bool" where
  "is_space c \<longleftrightarrow> c \<in> set [CHR '' '', CHR 0x09, CHR 0x0A, CHR 0x0B, CHR 0x0C, CHR 0x0D]"

definition is_digit :: "char \<Rightarrow> bool" where
  "is_digit c \<longleftrightarrow> CHR ''0'' \<le> c \<and> c \<le> CHR ''9''"

definition digit_val :: "char \<Rightarrow> int" where
  "digit_val c = int (of_char c) - 48"

definition py_strip :: "string \<Rightarrow> string" where
  "py_strip s = rev (dropWhile is_space (rev (dropWhile is_space s)))"

fun parse_digits :: "int \<Rightarrow> string \<Rightarrow> int option" where
  "parse_digits acc [] = Some acc"
| "parse_digits acc (c # cs) =
     (if is_digit c then parse_digits (acc * 10 + digit_val c) cs
      else if c = CHR ''_'' then
        (case cs of [] \<Rightarrow> None
         | d # _ \<Rightarrow> if is_digit d then parse_digits acc cs else None)
      else None)"

definition parse_unsigned :: "string \<Rightarrow> int option" where
  "parse_unsigned s =
     (case s of [] \<Rightarrow> None
      | c # _ \<Rightarrow> if is_digit c then parse_digits 0 s else None)"

definition py_int :: "string \<Rightarrow> int option" where
  "py_int s =
     (case py_strip s of
        [] \<Rightarrow> None
      | c # cs \<Rightarrow>
          if c = CHR ''+'' then parse_unsigned cs
          else if c = CHR ''-'' then map_option uminus (parse_unsigned cs)
          else parse_unsigned (c # cs))"

text \<open>\<^verbatim>\<open>x.split('-')[0]\<close>: the text before the first \<^verbatim>\<open>-\<close>, all of it when there is none.\<close>

definition split_first :: "string \<Rightarrow> string" where
  "split_first s = takeWhile (\<lambda>c. c \<noteq> CHR ''-'') s"

text \<open>
  \<^verbatim>\<open>lambda x: int(x.split('-')[0])\<close>. A cell that is not text (a missing Year is the
  float \<open>NaN\<close>) has no method \<^verbatim>\<open>split\<close>: \<^verbatim>\<open>AttributeError\<close>.
\<close>

definition start_year_of :: "cell \<Rightarrow> py_exception + cell" where
  "start_year_of x =
     (case x of
        PyStr s \<Rightarrow> (case py_int (split_first s) of None \<Rightarrow> Inl ValueError | Some n \<Rightarrow> Inr (PyInt n))
      | _ \<Rightarrow> Inl AttributeError)"

text \<open>
  A function that may raise, over a list from left to right: the first exception ends
  the traversal. \<^verbatim>\<open>Series.apply(f)\<close> is this traversal of the column's cells.
\<close>

fun map_exc :: "('a \<Rightarrow> py_exception + 'b) \<Rightarrow> 'a list \<Rightarrow> py_exception + 'b list" where
  "map_exc f [] = Inr []"
| "map_exc f (x # xs) =
     and_then (f x) (\<lambda>y. and_then (map_exc f xs) (\<lambda>ys. Inr (y # ys)))"

definition apply_col :: "(cell \<Rightarrow> py_exception + cell) \<Rightarrow> cell list \<Rightarrow> py_exception + cell list" where
  "apply_col f vs = map_exc f vs"

text \<open>
  \<^verbatim>\<open>load_and_clean_data(file_path)\<close>. Reading the file is the environment's part:
  \<open>read_csv\<close> gives the table of a path, or the exception raised. (The decorator
  \<^verbatim>\<open>st.cache_data\<close> only memoises the call.)
\<close>

definition load_and_clean_data ::
  "(string \<Rightarrow> py_exception + dataframe) \<Rightarrow> (string \<Rightarrow> float64) \<Rightarrow> string \<Rightarrow> py_exception + dataframe" where
  "load_and_clean_data read_csv to_num file_path =
     and_then (read_csv file_path) (\<lambda>df.
     and_then (clean_cols to_num finance_cols df) (\<lambda>df.
     and_then (getcol df ''Year'') (\<lambda>year.
     and_then (apply_col start_year_of year) (\<lambda>start_year.
     and_then (getcol (setcol df ''Start Year'' start_year) ''Total Plan & Non-Plan'') (\<lambda>total.
     Inr (setcol (setcol df ''Start Year'' start_year) ''Total Budget (INR Cr)'' total))))))"

section \<open>Floating-point addition and order\<close>

text \<open>
  Addition of binary64 numbers: the exact sum, rounded to the nearest number of 53
  significant bits (ties to the even significand), with the smallest exponent \<open>-1074\<close>
  and overflow to an infinity when the rounded magnitude reaches \<open>2 ^ 1024\<close>.
\<close>

definition pow2 :: "int \<Rightarrow> rat" where
  "pow2 p = (if 0 \<le> p then 2 ^ nat p else 1 / 2 ^ nat (- p))"

text \<open>The exponent \<open>e\<close> of a positive rational: \<open>2 ^ e \<le> q < 2 ^ (e + 1)\<close>.\<close>

definition ilog2 :: "rat \<Rightarrow> int" where
  "ilog2 q =
     (case quotient_of q of
        (a, b) \<Rightarrow> let d = bitlen a - bitlen b in if pow2 d \<le> q then d else d - 1)"

definition round_half_even :: "rat \<Rightarrow> int" where
  "round_half_even r =
     (let f = \<lfloor>r\<rfloor>; d = r - of_int f
      in if d < 1 / 2 then f else if 1 / 2 < d then f + 1 else if even f then f else f + 1)"

definition round64 :: "rat \<Rightarrow> float64" where
  "round64 q =
     (if q = 0 then Finite 0
      else
        let e = ilog2 \<bar>q\<bar>;
            p = max (e - 52) (- 1074);
            v = of_int (round_half_even (q * pow2 (- p))) * pow2 p
        in if v = 0 then Finite 0
           else if 1024 \<le> ilog2 \<bar>v\<bar> then (if 0 < v then PosInf else NegInf)
           else Finite v)"

fun fadd :: "float64 \<Rightarrow> float64 \<Rightarrow> float64" where
  "fadd NaN _ = NaN"
| "fadd _ NaN = NaN"
| "fadd PosInf NegInf = NaN"
| "fadd NegInf PosInf = NaN"
| "fadd PosInf _ = PosInf"
| "fadd _ PosInf = PosInf"
| "fadd NegInf _ = NegInf"
| "fadd _ NegInf = NegInf"
| "fadd (Finite a) (Finite b) = round64 (a + b)"

text \<open>The sum of a list of floats, accumulated from the left starting at zero.\<close>

definition fsum :: "float64 list \<Rightarrow> float64" where
  "fsum xs = foldl fadd (Finite 0) xs"

text \<open>The order of floats, as a key: \<open>-inf\<close>, the finite ones by value, \<open>inf\<close>; \<open>NaN\<close> comes last.\<close>

fun fkey :: "float64 \<Rightarrow> int \<times> rat" where
  "fkey NegInf = (0, 0)"
| "fkey (Finite q) = (1, q)"
| "fkey PosInf = (2, 0)"
| "fkey NaN = (3, 0)"

section \<open>Operations of pandas and Python on columns\<close>

text \<open>
  \<^verbatim>\<open>==\<close> between two values, as used cell by cell in \<^verbatim>\<open>df[col] == selected\<close>:
  texts are equal as texts, numbers by value, \<open>NaN\<close> equals nothing, and a text never
  equals a number.
\<close>

fun py_eq :: "cell \<Rightarrow> cell \<Rightarrow> bool" where
  "py_eq (PyStr a) (PyStr b) = (a = b)"
| "py_eq (PyInt a) (PyInt b) = (a = b)"
| "py_eq (PyInt a) (PyFloat f) = (f = Finite (of_int a))"
| "py_eq (PyFloat f) (PyInt b) = (f = Finite (of_int b))"
| "py_eq (PyFloat f) (PyFloat g) = (f = g \<and> f \<noteq> NaN)"
| "py_eq _ _ = False"

text \<open>\<^verbatim>\<open>df[keep]\<close>, \<open>keep\<close> a list of truth values: the rows at which it is true, in their order.\<close>

definition boolean_index :: "bool list \<Rightarrow> dataframe \<Rightarrow> dataframe" where
  "boolean_index keep df = iloc [i \<leftarrow> [0..<nrows df]. keep ! i] df"

text \<open>\<^verbatim>\<open>df.head(n)\<close>: the first \<open>n\<close> rows.\<close>

definition head :: "nat \<Rightarrow> dataframe \<Rightarrow> dataframe" where
  "head n df = map (\<lambda>(c, vs). (c, take n vs)) df"

text \<open>\<^verbatim>\<open>Series.unique()\<close>: the distinct values in the order of their first occurrence.\<close>

definition unique :: "'a list \<Rightarrow> 'a list" where
  "unique xs = rev (fold (\<lambda>x seen. if x \<in> set seen then seen else x # seen) xs [])"

text \<open>The value of a number cell as a key of the order; a text has none.\<close>

fun num_key :: "cell \<Rightarrow> (int \<times> rat) option" where
  "num_key (PyStr s) = None"
| "num_key (PyFloat f) = Some (fkey f)"
| "num_key (PyInt n) = Some (1, of_int n)"

fun str_of :: "cell \<Rightarrow> string option" where
  "str_of (PyStr s) = Some s"
| "str_of _ = None"

text \<open>
  Python's \<^verbatim>\<open>sorted\<close> on a list of values, which is stable: texts are ordered as
  texts, numbers by value, and comparing a text with a number is \<^verbatim>\<open>TypeError\<close>.
  (Where a float \<open>NaN\<close> stands among numbers Python's result depends on the run of
  the algorithm; the model puts it last.)
\<close>

definition py_sorted :: "cell list \<Rightarrow> py_exception + cell list" where
  "py_sorted xs =
     (if \<forall>x \<in> set xs. str_of x \<noteq> None then Inr (sort_key (\<lambda>x. the (str_of x)) xs)
      else if \<forall>x \<in> set xs. num_key x \<noteq> None then Inr (sort_key (\<lambda>x. the (num_key x)) xs)
      else Inl TypeError)"

text \<open>
  The sums of pandas, \<^verbatim>\<open>Series.sum()\<close> and the sum of one group of
  \<^verbatim>\<open>groupby(...).sum()\<close>, are the library's: the order of their additions, their
  compensation of rounding errors and their arithmetic on integer columns are not fixed
  here. They are parameters of the model, fields of the record \<open>library\<close> below.

  One summation is written out, for the examples: the binary64 sum from the left, missing
  values skipped, an integer cell converted to a float first, a text cell being
  \<^verbatim>\<open>TypeError\<close>.
\<close>

fun float_of :: "cell \<Rightarrow> py_exception + float64" where
  "float_of (PyStr s) = Inl TypeError"
| "float_of (PyFloat f) = Inr f"
| "float_of (PyInt n) = Inr (round64 (of_int n))"

definition sum_col :: "cell list \<Rightarrow> py_exception + float64" where
  "sum_col vs = and_then (map_exc float_of vs) (\<lambda>fs. Inr (fsum [f \<leftarrow> fs. f \<noteq> NaN]))"

definition seq_sum :: "cell list \<Rightarrow> py_exception + cell" where
  "seq_sum vs = and_then (sum_col vs) (\<lambda>x. Inr (PyFloat x))"

text \<open>
  \<^verbatim>\<open>df.sort_values(col, ascending=False)\<close>. pandas reverses the positions of the
  cells that are not missing, sorts them ascending by value, reverses the result, and
  puts the missing ones last. The sort is taken as stable; the order pandas gives to
  rows of equal value is not specified.
\<close>

definition argsort_desc :: "(int \<times> rat) list \<Rightarrow> nat list" where
  "argsort_desc ks =
     rev (sort_key (\<lambda>i. ks ! i) (rev [i \<leftarrow> [0..<length ks]. ks ! i \<noteq> fkey NaN]))
     @ [i \<leftarrow> [0..<length ks]. ks ! i = fkey NaN]"

definition sort_values_desc :: "dataframe \<Rightarrow> string \<Rightarrow> py_exception + dataframe" where
  "sort_values_desc df col =
     and_then (getcol df col) (\<lambda>vs.
       if \<forall>v \<in> set vs. num_key v \<noteq> None
       then Inr (iloc (argsort_desc (map (\<lambda>v. the (num_key v)) vs)) df)
       else Inl TypeError)"

text \<open>\<^verbatim>\<open>df[[c1, c2, ...]]\<close>: the named columns, in the order asked.\<close>

definition select_cols :: "dataframe \<Rightarrow> string list \<Rightarrow> py_exception + dataframe" where
  "select_cols df cols = map_exc (\<lambda>c. and_then (getcol df c) (\<lambda>vs. Inr (c, vs))) cols"

text \<open>
  \<^verbatim>\<open>df.melt(id_vars=[id], value_vars=vars, var_name=.., value_name=..)\<close>: for every
  value column in turn, all rows of the table: the identifier, the value column's name,
  the value.
\<close>

definition melt :: "dataframe \<Rightarrow> string \<Rightarrow> string list \<Rightarrow> string \<Rightarrow> string \<Rightarrow> py_exception + dataframe" where
  "melt df id_var value_vars var_name value_name =
     and_then (getcol df id_var) (\<lambda>ids.
     and_then (map_exc (getcol df) value_vars) (\<lambda>cols.
     Inr [(id_var, concat (map (\<lambda>_. ids) value_vars)),
          (var_name, concat (map (\<lambda>(v, vs). map (\<lambda>_. PyStr v) vs) (zip value_vars cols))),
          (value_name, concat cols)]))"

section \<open>The dashboard: \<^verbatim>\<open>ga.py\<close> from the filters on\<close>

text \<open>
  \<^verbatim>\<open>df[df[col] == selected]\<close>, and the two filters of the sidebar. A selection is the
  value the select box returns: the sentinel text or one of the values of the column.
\<close>

definition filter_eq :: "dataframe \<Rightarrow> string \<Rightarrow> cell \<Rightarrow> py_exception + dataframe" where
  "filter_eq df col selected =
     and_then (getcol df col) (\<lambda>vs. Inr (boolean_index (map (\<lambda>v. py_eq v selected) vs) df))"

definition apply_filters :: "dataframe \<Rightarrow> cell \<Rightarrow> cell \<Rightarrow> py_exception + dataframe" where
  "apply_filters df selected_ministry selected_year =
     and_then
       (if \<not> py_eq selected_ministry (PyStr ''All Ministries'')
        then filter_eq df ''Ministry Name'' selected_ministry else Inr df) (\<lambda>df_filtered.
     if \<not> py_eq selected_year (PyStr ''All Years'')
     then filter_eq df_filtered ''Start Year'' selected_year else Inr df_filtered)"

text \<open>\<^verbatim>\<open>df.empty\<close>: no columns or no rows.\<close>

definition is_empty :: "dataframe \<Rightarrow> bool" where
  "is_empty df \<longleftrightarrow> df = [] \<or> nrows df = 0"

text \<open>
  The calls of Streamlit and Altair that put something on the page, in the order of the
  script, with what they are given:
  \<^item> \<open>Notice\<close>: \<^verbatim>\<open>st.sidebar.success\<close>, the last line under \<^verbatim>\<open>try\<close>;
  \<^item> \<open>Sidebar\<close>: the title and the two select boxes, with their options;
  \<^item> \<open>Heading\<close>: the title and the line naming the selection;
  \<^item> \<open>Metrics\<close>: the three columns with \<^verbatim>\<open>st.metric\<close>;
  \<^item> \<open>TrendHeading\<close>: the divider, the tabs, and the header and caption of the first tab;
  \<^item> \<open>TrendChart\<close>: the line chart and \<^verbatim>\<open>st.altair_chart\<close> on it;
  \<^item> \<open>Tab2\<close>: the header of the second tab and its bar chart, stacked chart or
    \<^verbatim>\<open>st.info\<close>;
  \<^item> \<open>DataTable\<close>: the third tab with \<^verbatim>\<open>st.dataframe\<close>.

  What these calls do is the host's. The model takes it as a parameter: \<open>display\<close> tells
  for each call whether it returns or which exception it raises. With the two sums it
  makes up the library the script runs on.
\<close>

datatype breakdown = TopMinistries dataframe | PlanVsNonPlan dataframe | InfoMessage

datatype widget =
    Notice
  | Sidebar "cell list" "cell list"
  | Heading cell cell
  | Metrics cell cell cell
  | TrendHeading
  | TrendChart dataframe
  | Tab2 breakdown
  | DataTable dataframe

record library =
  series_sum :: "cell list \<Rightarrow> py_exception + cell"
  group_sum :: "cell list \<Rightarrow> py_exception + cell"
  display :: "widget \<Rightarrow> py_exception + unit"

text \<open>
  The key metrics: under \<^verbatim>\<open>if not df_filtered.empty\<close> the three sums are computed and
  shown; \<open>None\<close> when the block is skipped.
\<close>

definition key_metrics :: "library \<Rightarrow> dataframe \<Rightarrow> py_exception + (cell \<times> cell \<times> cell) option" where
  "key_metrics lib df_filtered =
     (if \<not> is_empty df_filtered then
        and_then (and_then (getcol df_filtered ''Total Budget (INR Cr)'') (series_sum lib)) (\<lambda>total_budget.
        and_then (and_then (getcol df_filtered ''Total (Plan)'') (series_sum lib)) (\<lambda>total_plan.
        and_then (and_then (getcol df_filtered ''Total (Non-Plan)'') (series_sum lib)) (\<lambda>total_non_plan.
        and_then (display lib (Metrics total_budget total_plan total_non_plan)) (\<lambda>_.
        Inr (Some (total_budget, total_plan, total_non_plan))))))
      else Inr None)"

text \<open>
  \<^verbatim>\<open>df.groupby(key)[val].sum().reset_index()\<close>: one row per distinct key that is
  not missing, the keys ascending, each with the library's sum of the cells of \<open>val\<close> in
  the rows of that key, taken in the order of the rows.
\<close>

definition groupby_sum :: "library \<Rightarrow> dataframe \<Rightarrow> string \<Rightarrow> string \<Rightarrow> py_exception + dataframe" where
  "groupby_sum lib df key val =
     and_then (getcol df key) (\<lambda>ks.
     and_then (getcol df val) (\<lambda>vs.
     and_then (py_sorted (unique [k \<leftarrow> ks. k \<noteq> PyFloat NaN])) (\<lambda>gs.
     and_then (map_exc (\<lambda>g. group_sum lib (map snd [kv \<leftarrow> zip ks vs. fst kv = g])) gs) (\<lambda>totals.
     Inr [(key, gs), (val, totals)]))))"

text \<open>The trend of the first tab, from the whole table \<^verbatim>\<open>df\<close>.\<close>

definition df_trend :: "library \<Rightarrow> dataframe \<Rightarrow> py_exception + dataframe" where
  "df_trend lib df = groupby_sum lib df ''Start Year'' ''Total Budget (INR Cr)''"

text \<open>The second tab: which chart is drawn, and from which table.\<close>

definition df_year_breakdown :: "dataframe \<Rightarrow> py_exception + dataframe" where
  "df_year_breakdown df_filtered =
     and_then (sort_values_desc df_filtered ''Total Budget (INR Cr)'') (\<lambda>sorted_df.
     Inr (head 10 sorted_df))"

definition df_plan_nonplan :: "dataframe \<Rightarrow> py_exception + dataframe" where
  "df_plan_nonplan df_filtered =
     and_then (select_cols df_filtered [''Start Year'', ''Total (Plan)'', ''Total (Non-Plan)'']) (\<lambda>d.
     melt d ''Start Year'' [''Total (Plan)'', ''Total (Non-Plan)''] ''Type'' ''Amount'')"

definition detailed_breakdown :: "dataframe \<Rightarrow> cell \<Rightarrow> cell \<Rightarrow> py_exception + breakdown" where
  "detailed_breakdown df_filtered selected_ministry selected_year =
     (if \<not> py_eq selected_year (PyStr ''All Years'') then
        and_then (df_year_breakdown df_filtered) (\<lambda>d. Inr (TopMinistries d))
      else if \<not> py_eq selected_ministry (PyStr ''All Ministries'') then
        and_then (df_plan_nonplan df_filtered) (\<lambda>d. Inr (PlanVsNonPlan d))
      else Inr InfoMessage)"

text \<open>What one run hands to the page.\<close>

record outputs =
  cleaned :: dataframe
  all_ministries :: "cell list"
  all_years :: "cell list"
  filtered :: dataframe
  metrics :: "(cell \<times> cell \<times> cell) option"
  trend :: dataframe
  tab2 :: breakdown

text \<open>
  The block under \<^verbatim>\<open>try\<close>: the cleaned table, the options of the two select boxes, and
  the notice in the sidebar.
\<close>

definition load_block ::
  "library \<Rightarrow> (string \<Rightarrow> py_exception + dataframe) \<Rightarrow> (string \<Rightarrow> float64) \<Rightarrow>
   py_exception + dataframe \<times> cell list \<times> cell list" where
  "load_block lib read_csv to_num =
     and_then (load_and_clean_data read_csv to_num ''Budget.csv'') (\<lambda>df.
     and_then (getcol df ''Ministry Name'') (\<lambda>ministry.
     and_then (py_sorted (unique ministry)) (\<lambda>ministries.
     and_then (getcol df ''Start Year'') (\<lambda>start_year.
     and_then (py_sorted (unique start_year)) (\<lambda>years.
     and_then (display lib Notice) (\<lambda>_.
     Inr (df, PyStr ''All Ministries'' # ministries, PyStr ''All Years'' # years)))))))"

text \<open>
  The script after the block under \<^verbatim>\<open>try\<close>, its computations and its calls of the host
  in their order. (The second tab shows its header, and in two of its branches a
  subheader, before it computes its table; these are part of \<open>Tab2\<close>, shown after the
  table is computed.)
\<close>

definition dashboard ::
  "library \<Rightarrow> dataframe \<Rightarrow> cell list \<Rightarrow> cell list \<Rightarrow> cell \<Rightarrow> cell \<Rightarrow> py_exception + outputs" where
  "dashboard lib df ministries years selected_ministry selected_year =
     and_then (display lib (Sidebar ministries years)) (\<lambda>_.
     and_then (apply_filters df selected_ministry selected_year) (\<lambda>df_filtered.
     and_then (display lib (Heading selected_ministry selected_year)) (\<lambda>_.
     and_then (key_metrics lib df_filtered) (\<lambda>m.
     and_then (display lib TrendHeading) (\<lambda>_.
     and_then (df_trend lib df) (\<lambda>t.
     and_then (display lib (TrendChart t)) (\<lambda>_.
     and_then (detailed_breakdown df_filtered selected_ministry selected_year) (\<lambda>b.
     and_then (display lib (Tab2 b)) (\<lambda>_.
     and_then (display lib (DataTable df)) (\<lambda>_.
     Inr \<lparr>cleaned = df, all_ministries = ministries, all_years = years,
          filtered = df_filtered, metrics = m, trend = t, tab2 = b\<rparr>))))))))))"

text \<open>
  A run ends in one of three ways: the page is rendered; the handler
  \<^verbatim>\<open>except Exception\<close> reports the exception with \<^verbatim>\<open>st.error\<close> and stops the script
  with \<^verbatim>\<open>st.stop()\<close>; or an exception leaves the script uncaught.
\<close>

datatype run = Rendered outputs | Stopped py_exception | Uncaught py_exception

definition main ::
  "library \<Rightarrow> (string \<Rightarrow> py_exception + dataframe) \<Rightarrow> (string \<Rightarrow> float64) \<Rightarrow> cell \<Rightarrow> cell \<Rightarrow> run" where
  "main lib read_csv to_num selected_ministry selected_year =
     (case load_block lib read_csv to_num of
        Inl e \<Rightarrow> if is_Exception e then Stopped e else Uncaught e
      | Inr (df, ministries, years) \<Rightarrow>
          (case dashboard lib df ministries years selected_ministry selected_year of
             Inl e \<Rightarrow> Uncaught e
           | Inr out \<Rightarrow> Rendered out))"

section \<open>Notions used to state the properties\<close>

text \<open>What the three assignments of the loop do to one cell.\<close>

definition clean_cell :: "(string \<Rightarrow> float64) \<Rightarrow> cell \<Rightarrow> cell" where
  "clean_cell to_num c = fillna0 (to_numeric to_num (replace_tokens c))"

text \<open>A cell that is numeric and not missing.\<close>

fun is_number :: "cell \<Rightarrow> bool" where
  "is_number (PyStr s) = False"
| "is_number (PyFloat f) = (f \<noteq> NaN)"
| "is_number (PyInt n) = True"

text \<open>The field of a row under a column name.\<close>

definition field :: "(string \<times> cell) list \<Rightarrow> string \<Rightarrow> cell option" where
  "field r col = map_of r col"

text \<open>
  A row has the selected value under a column. A selection passes a row when the
  selector is the sentinel or the row has the selected value.
\<close>

definition field_eq :: "(string \<times> cell) list \<Rightarrow> string \<Rightarrow> cell \<Rightarrow> bool" where
  "field_eq r col selected = (case field r col of None \<Rightarrow> False | Some v \<Rightarrow> py_eq v selected)"

definition passes :: "cell \<Rightarrow> cell \<Rightarrow> (string \<times> cell) list \<Rightarrow> bool" where
  "passes selected_ministry selected_year r \<longleftrightarrow>
     (py_eq selected_ministry (PyStr ''All Ministries'') \<or> field_eq r ''Ministry Name'' selected_ministry) \<and>
     (py_eq selected_year (PyStr ''All Years'') \<or> field_eq r ''Start Year'' selected_year)"

text \<open>
  What cleaning establishes and the rest of the script relies on: a well-formed table
  with the ministry names, integer start years, and numbers in the three columns that
  are summed and sorted.
\<close>

fun is_int :: "cell \<Rightarrow> bool" where
  "is_int (PyInt n) = True"
| "is_int _ = False"

definition col_all :: "(cell \<Rightarrow> bool) \<Rightarrow> dataframe \<Rightarrow> string \<Rightarrow> bool" where
  "col_all P df col = (case map_of df col of None \<Rightarrow> False | Some vs \<Rightarrow> list_all P vs)"

definition clean_table :: "dataframe \<Rightarrow> bool" where
  "clean_table df \<longleftrightarrow>
     wf_df df \<and> ''Ministry Name'' \<in> set (columns df) \<and>
     col_all is_int df ''Start Year'' \<and>
     col_all is_number df ''Total Budget (INR Cr)'' \<and>
     col_all is_number df ''Total (Plan)'' \<and>
     col_all is_number df ''Total (Non-Plan)''"

text \<open>The order of two number cells by value.\<close>

definition num_le :: "cell \<Rightarrow> cell \<Rightarrow> bool" where
  "num_le a b = (case (num_key a, num_key b) of (Some x, Some y) \<Rightarrow> x \<le> y | _ \<Rightarrow> False)"

text \<open>One row of the long form: a start year, a category, an amount.\<close>

definition long_row :: "string \<Rightarrow> cell \<times> cell \<Rightarrow> (string \<times> cell) list" where
  "long_row category ya =
     [(''Start Year'', fst ya), (''Type'', PyStr category), (''Amount'', snd ya)]"



text \<open>
  A sum that is exact on whole amounts: on a column of floats that are whole numbers whose
  magnitudes add up to less than \<open>2 ^ 53\<close>, it returns their sum.
\<close>

definition exact_on_whole :: "(cell list \<Rightarrow> py_exception + cell) \<Rightarrow> bool" where
  "exact_on_whole S \<longleftrightarrow>
     (\<forall>ks. (\<Sum>k\<leftarrow>ks. \<bar>k\<bar>) < 2 ^ 53 \<longrightarrow>
        S (map (\<lambda>k. PyFloat (Finite (of_int k))) ks) = Inr (PyFloat (Finite (of_int (sum_list ks)))))"

section \<open>Example tables\<close>

text \<open>
  A small budget file as \<^verbatim>\<open>read_csv\<close> loads it: its financial cells are text because
  of the placeholders, and an empty cell is the float \<open>NaN\<close>. Defence has two rows for
  2015-2016. With it, a reader that knows this one file.
\<close>

definition example_csv :: dataframe where
  "example_csv =
     [(''Ministry Name'', [PyStr ''Defence'', PyStr ''Health'', PyStr ''Defence'', PyStr ''Defence'']),
      (''Year'', [PyStr ''2015-2016'', PyStr ''2015-2016'', PyStr ''2015-2016'', PyStr ''2016-2017'']),
      (''Revenue (Plan)'', [PyStr ''-'', PyStr ''10'', PyFloat NaN, PyStr ''2'']),
      (''Capital (Plan)'', [PyStr ''4.5'', PyStr ''nil'', PyStr ''1'', PyStr ''2'']),
      (''Total (Plan)'', [PyStr ''4.5'', PyStr ''10'', PyStr ''1'', PyStr ''4'']),
      (''Revenue (Non-Plan)'', [PyStr ''1000'', PyStr ''-'', PyStr ''7'', PyStr ''7'']),
      (''Capital (Non-Plan)'', [PyStr ''230'', PyStr ''-'', PyStr ''1'', PyStr ''1'']),
      (''Total (Non-Plan)'', [PyStr ''1230'', PyStr ''-'', PyStr ''8'', PyStr ''8'']),
      (''Total Plan & Non-Plan'', [PyStr ''1234.5'', PyStr ''10'', PyStr ''9'', PyStr ''12''])]"

definition example_read :: "string \<Rightarrow> py_exception + dataframe" where
  "example_read path = (if path = ''Budget.csv'' then Inr example_csv else Inl FileNotFoundError)"

text \<open>A conversion of texts to floats that knows the literals of the examples.\<close>

definition example_to_num :: "string \<Rightarrow> float64" where
  "example_to_num s =
     (case map_of
        [(''1'', 1), (''2'', 2), (''4'', 4), (''7'', 7), (''8'', 8), (''9'', 9), (''10'', 10),
         (''12'', 12), (''4.5'', 9 / 2), (''230'', 230), (''1000'', 1000), (''1230'', 1230),
         (''1234.5'', 2469 / 2)] s of
        None \<Rightarrow> NaN
      | Some q \<Rightarrow> Finite q)"

text \<open>The example file after cleaning.\<close>

definition example_clean :: dataframe where
  "example_clean =
     [(''Ministry Name'', [PyStr ''Defence'', PyStr ''Health'', PyStr ''Defence'', PyStr ''Defence'']),
      (''Year'', [PyStr ''2015-2016'', PyStr ''2015-2016'', PyStr ''2015-2016'', PyStr ''2016-2017'']),
      (''Revenue (Plan)'', [PyFloat (Finite 0), PyFloat (Finite 10), PyFloat (Finite 0), PyFloat (Finite 2)]),
      (''Capital (Plan)'', [PyFloat (Finite (9 / 2)), PyFloat (Finite 0), PyFloat (Finite 1), PyFloat (Finite 2)]),
      (''Total (Plan)'', [PyFloat (Finite (9 / 2)), PyFloat (Finite 10), PyFloat (Finite 1), PyFloat (Finite 4)]),
      (''Revenue (Non-Plan)'', [PyFloat (Finite 1000), PyFloat (Finite 0), PyFloat (Finite 7), PyFloat (Finite 7)]),
      (''Capital (Non-Plan)'', [PyFloat (Finite 230), PyFloat (Finite 0), PyFloat (Finite 1), PyFloat (Finite 1)]),
      (''Total (Non-Plan)'', [PyFloat (Finite 1230), PyFloat (Finite 0), PyFloat (Finite 8), PyFloat (Finite 8)]),
      (''Total Plan & Non-Plan'', [PyFloat (Finite (2469 / 2)), PyFloat (Finite 10), PyFloat (Finite 9), PyFloat (Finite 12)]),
      (''Start Year'', [PyInt 2015, PyInt 2015, PyInt 2015, PyInt 2016]),
      (''Total Budget (INR Cr)'', [PyFloat (Finite (2469 / 2)), PyFloat (Finite 10), PyFloat (Finite 9), PyFloat (Finite 12)])]"

text \<open>A file in which one cell of the column \<^verbatim>\<open>Year\<close> has no integer before the \<^verbatim>\<open>-\<close>.\<close>

definition malformed_csv :: dataframe where
  "malformed_csv =
     setcol example_csv ''Year''
       [PyStr ''2015-2016'', PyStr ''FY15-2016'', PyStr ''2015-2016'', PyStr ''2016-2017'']"

definition malformed_read :: "string \<Rightarrow> py_exception + dataframe" where
  "malformed_read path = (if path = ''Budget.csv'' then Inr malformed_csv else Inl FileNotFoundError)"

text \<open>A cleaned table filtered to 2016: twelve ministries, the columns the charts use.\<close>

definition year_table :: dataframe where
  "year_table =
     [(''Ministry Name'',
       [PyStr ''Agriculture'', PyStr ''Coal'', PyStr ''Culture'', PyStr ''Defence'',
        PyStr ''Education'', PyStr ''Finance'', PyStr ''Health'', PyStr ''Mines'',
        PyStr ''Power'', PyStr ''Railways'', PyStr ''Steel'', PyStr ''Tourism'']),
      (''Start Year'', replicate 12 (PyInt 2016)),
      (''Total (Plan)'',
       [PyFloat (Finite 5), PyFloat (Finite 120), PyFloat (Finite 33), PyFloat (Finite 7),
        PyFloat (Finite 99), PyFloat (Finite 250), PyFloat (Finite 1), PyFloat (Finite 64),
        PyFloat (Finite 18), PyFloat (Finite 42), PyFloat (Finite 77), PyFloat (Finite 3)]),
      (''Total (Non-Plan)'', replicate 12 (PyFloat (Finite 0))),
      (''Total Budget (INR Cr)'',
       [PyFloat (Finite 5), PyFloat (Finite 120), PyFloat (Finite 33), PyFloat (Finite 7),
        PyFloat (Finite 99), PyFloat (Finite 250), PyFloat (Finite 1), PyFloat (Finite 64),
        PyFloat (Finite 18), PyFloat (Finite 42), PyFloat (Finite 77), PyFloat (Finite 3)])]"

text \<open>
  Tables for the trend. The first is a cleaned table of whole amounts. The second is a
  file whose numeric columns \<^verbatim>\<open>read_csv\<close> loads as floats, with the totals 0.1, 0.2 and
  0.4 (the binary64 numbers nearest to these decimals), the first and the last of them in
  2015-2016; with it, its reader and the table it is cleaned to.
\<close>

definition ledger_table :: dataframe where
  "ledger_table =
     [(''Ministry Name'', [PyStr ''Defence'', PyStr ''Health'', PyStr ''Defence'', PyStr ''Health'']),
      (''Start Year'', [PyInt 2016, PyInt 2015, PyInt 2015, PyInt 2016]),
      (''Total (Plan)'', [PyFloat (Finite 40), PyFloat (Finite 3), PyFloat (Finite 30), PyFloat (Finite 5)]),
      (''Total (Non-Plan)'', [PyFloat (Finite 60), PyFloat (Finite 4), PyFloat (Finite 50), PyFloat (Finite 6)]),
      (''Total Budget (INR Cr)'',
       [PyFloat (Finite 100), PyFloat (Finite 7), PyFloat (Finite 80), PyFloat (Finite 11)])]"

definition decimal_csv :: dataframe where
  "decimal_csv =
     [(''Ministry Name'', [PyStr ''Defence'', PyStr ''Health'', PyStr ''Culture'']),
      (''Year'', [PyStr ''2015-2016'', PyStr ''2016-2017'', PyStr ''2015-2016'']),
      (''Revenue (Plan)'', [PyFloat (Finite 0), PyFloat (Finite 0), PyFloat (Finite 0)]),
      (''Capital (Plan)'', [PyFloat (Finite 0), PyFloat (Finite 0), PyFloat (Finite 0)]),
      (''Total (Plan)'', [PyFloat (Finite 0), PyFloat (Finite 0), PyFloat (Finite 0)]),
      (''Revenue (Non-Plan)'', [PyFloat (Finite 0), PyFloat (Finite 0), PyFloat (Finite 0)]),
      (''Capital (Non-Plan)'', [PyFloat (Finite 0), PyFloat (Finite 0), PyFloat (Finite 0)]),
      (''Total (Non-Plan)'',
       [PyFloat (round64 (1 / 10)), PyFloat (round64 (2 / 10)), PyFloat (round64 (4 / 10))]),
      (''Total Plan & Non-Plan'',
       [PyFloat (round64 (1 / 10)), PyFloat (round64 (2 / 10)), PyFloat (round64 (4 / 10))])]"

definition decimal_read :: "string \<Rightarrow> py_exception + dataframe" where
  "decimal_read path = (if path = ''Budget.csv'' then Inr decimal_csv else Inl FileNotFoundError)"

definition decimal_clean :: dataframe where
  "decimal_clean =
     [(''Ministry Name'', [PyStr ''Defence'', PyStr ''Health'', PyStr ''Culture'']),
      (''Year'', [PyStr ''2015-2016'', PyStr ''2016-2017'', PyStr ''2015-2016'']),
      (''Revenue (Plan)'', [PyFloat (Finite 0), PyFloat (Finite 0), PyFloat (Finite 0)]),
      (''Capital (Plan)'', [PyFloat (Finite 0), PyFloat (Finite 0), PyFloat (Finite 0)]),
      (''Total (Plan)'', [PyFloat (Finite 0), PyFloat (Finite 0), PyFloat (Finite 0)]),
      (''Revenue (Non-Plan)'', [PyFloat (Finite 0), PyFloat (Finite 0), PyFloat (Finite 0)]),
      (''Capital (Non-Plan)'', [PyFloat (Finite 0), PyFloat (Finite 0), PyFloat (Finite 0)]),
      (''Total (Non-Plan)'',
       [PyFloat (round64 (1 / 10)), PyFloat (round64 (2 / 10)), PyFloat (round64 (4 / 10))]),
      (''Total Plan & Non-Plan'',
       [PyFloat (round64 (1 / 10)), PyFloat (round64 (2 / 10)), PyFloat (round64 (4 / 10))]),
      (''Start Year'', [PyInt 2015, PyInt 2016, PyInt 2015]),
      (''Total Budget (INR Cr)'',
       [PyFloat (round64 (1 / 10)), PyFloat (round64 (2 / 10)), PyFloat (round64 (4 / 10))])]"

text \<open>
  Two hosts. Both sum from the left in binary64. The first displays everything. The
  second holds the integers of a table that it displays in 64 bits, and raises
  \<^verbatim>\<open>OverflowError\<close> when one does not fit.
\<close>

definition plain_host :: library where
  "plain_host = \<lparr>series_sum = seq_sum, group_sum = seq_sum, display = (\<lambda>w. Inr ())\<rparr>"






definition preset_csv :: dataframe where
  "preset_csv =
     example_csv @ [(''Start Year'', [PyStr ''FY15'', PyStr ''FY15'', PyStr ''FY15'', PyStr ''FY16''])]"

definition preset_read :: "string \<Rightarrow> py_exception + dataframe" where
  "preset_read path = (if path = ''Budget.csv'' then Inr preset_csv else Inl FileNotFoundError)"


section \<open>Facts about the cleaner\<close>

subsection \<open>Sequencing, reading and writing columns\<close>

lemma and_then_Inr_iff:
  "and_then m f = Inr y \<longleftrightarrow> (\<exists>x. m = Inr x \<and> f x = Inr y)"
  by (cases m) (simp_all add: and_then_def)

lemma and_then_Inl_iff:
  "and_then m f = Inl e \<longleftrightarrow> m = Inl e \<or> (\<exists>x. m = Inr x \<and> f x = Inl e)"
  by (cases m) (simp_all add: and_then_def)

lemma and_then_Inr [simp]: "and_then (Inr x) f = f x"
  by (simp add: and_then_def)

lemma and_then_Inl [simp]: "and_then (Inl e) f = Inl e"
  by (simp add: and_then_def)

lemma getcol_Inr_iff: "getcol df col = Inr vs \<longleftrightarrow> map_of df col = Some vs"
  by (simp add: getcol_def split: option.splits)

lemma getcol_Inl_iff: "getcol df col = Inl e \<longleftrightarrow> map_of df col = None \<and> e = KeyError col"
  by (auto simp add: getcol_def split: option.splits)

lemma map_of_setcol: "map_of (setcol df col vs) = (map_of df)(col \<mapsto> vs)"
  by (simp add: setcol_def update_conv')

lemma getcol_setcol: "getcol (setcol df col vs) c = (if c = col then Inr vs else getcol df c)"
  by (simp add: getcol_def map_of_setcol)

lemma columns_setcol:
  "columns (setcol df col vs) = (if col \<in> set (columns df) then columns df else columns df @ [col])"
  by (simp add: setcol_def columns_def update_keys)

lemma setcol_setcol_same: "setcol (setcol df col vs) col ws = setcol df col ws"
  by (simp add: setcol_def)

lemma in_columns_iff: "col \<in> set (columns df) \<longleftrightarrow> (\<exists>vs. map_of df col = Some vs)"
  by (metis columns_def domD domI dom_map_of_conv_image_fst set_map)

lemma set_update_subset: "set (AList.update k v al) \<subseteq> insert (k, v) (set al)"
  by (induction al) auto

lemma nrows_setcol:
  "df \<noteq> [] \<Longrightarrow> length vs = nrows df \<Longrightarrow> nrows (setcol df col vs) = nrows df"
  by (cases df) (auto simp add: nrows_def setcol_def)

lemma wf_df_setcol:
  assumes "wf_df df" "df \<noteq> []" "length vs = nrows df"
  shows "wf_df (setcol df col vs)"
proof -
  have n: "nrows (setcol df col vs) = nrows df"
    using assms by (simp add: nrows_setcol)
  have "set (setcol df col vs) \<subseteq> insert (col, vs) (set df)"
    by (simp add: setcol_def set_update_subset)
  then have "\<forall>(c, ws) \<in> set (setcol df col vs). length ws = nrows df"
    using assms by (auto simp add: wf_df_def)
  moreover have "distinct (map fst (setcol df col vs))"
    using assms by (simp add: wf_df_def setcol_def distinct_update)
  ultimately show ?thesis by (simp add: wf_df_def n)
qed

lemma setcol_nonempty [simp]: "setcol df col vs \<noteq> []"
  by (simp add: setcol_def)

lemma wf_df_length: "wf_df df \<Longrightarrow> map_of df col = Some vs \<Longrightarrow> length vs = nrows df"
  by (auto simp add: wf_df_def dest: map_of_SomeD)

subsection \<open>The loop over the financial columns\<close>

lemma assign_map_eq:
  "assign_map f col df =
     (case map_of df col of None \<Rightarrow> Inl (KeyError col) | Some vs \<Rightarrow> Inr (setcol df col (map f vs)))"
  by (simp add: assign_map_def and_then_def getcol_def split: option.splits)

lemma clean_col_eq:
  "clean_col to_num col df =
     (case map_of df col of None \<Rightarrow> Inl (KeyError col)
      | Some vs \<Rightarrow> Inr (setcol df col (map (clean_cell to_num) vs)))"
  by (simp add: clean_col_def assign_map_eq and_then_def map_of_setcol setcol_setcol_same
      clean_cell_def [abs_def] comp_def split: option.splits)

lemma clean_cols_Inl: "clean_cols to_num cols df = Inl e \<Longrightarrow> \<exists>c. e = KeyError c"
  by (induction cols arbitrary: df)
     (auto simp add: and_then_Inl_iff clean_col_eq split: option.splits)

lemma clean_cols_Cons_Inr:
  "clean_cols to_num (col # cols) df = Inr df' \<longleftrightarrow>
   (\<exists>vs. map_of df col = Some vs \<and>
         clean_cols to_num cols (setcol df col (map (clean_cell to_num) vs)) = Inr df')"
  by (auto simp add: and_then_Inr_iff clean_col_eq split: option.splits)

lemma clean_cols_columns: "clean_cols to_num cols df = Inr df' \<Longrightarrow> columns df' = columns df"
proof (induction cols arbitrary: df)
  case Nil
  then show ?case by simp
next
  case (Cons col cols)
  from Cons.prems(1) [unfolded clean_cols_Cons_Inr]
  obtain vs where vs: "map_of df col = Some vs"
    and rest: "clean_cols to_num cols (setcol df col (map (clean_cell to_num) vs)) = Inr df'"
    by blast
  from vs have "col \<in> set (columns df)" by (auto simp add: in_columns_iff)
  with Cons.IH [OF rest] show ?case by (simp add: columns_setcol)
qed

lemma clean_cols_map_of:
  "clean_cols to_num cols df = Inr df' \<Longrightarrow> distinct cols \<Longrightarrow>
   map_of df' k = (if k \<in> set cols then map_option (map (clean_cell to_num)) (map_of df k) else map_of df k)"
proof (induction cols arbitrary: df)
  case Nil
  then show ?case by simp
next
  case (Cons col cols)
  from Cons.prems(1) [unfolded clean_cols_Cons_Inr]
  obtain vs where vs: "map_of df col = Some vs"
    and rest: "clean_cols to_num cols (setcol df col (map (clean_cell to_num) vs)) = Inr df'"
    by blast
  from Cons.prems have d: "distinct cols" and n: "col \<notin> set cols" by simp_all
  show ?case using Cons.IH [OF rest d] vs n by (auto simp add: map_of_setcol)
qed

lemma clean_cols_total:
  "set cols \<subseteq> set (columns df) \<Longrightarrow> \<exists>df'. clean_cols to_num cols df = Inr df'"
proof (induction cols arbitrary: df)
  case Nil
  then show ?case by simp
next
  case (Cons col cols)
  then obtain vs where vs: "map_of df col = Some vs" by (auto simp add: in_columns_iff)
  have "set cols \<subseteq> set (columns (setcol df col (map (clean_cell to_num) vs)))"
    using Cons.prems by (auto simp add: columns_setcol)
  from Cons.IH [OF this] show ?case using vs
    by (simp add: clean_col_eq)
qed

lemma clean_cols_wf:
  "clean_cols to_num cols df = Inr df' \<Longrightarrow> wf_df df \<Longrightarrow> wf_df df' \<and> nrows df' = nrows df"
proof (induction cols arbitrary: df)
  case Nil
  then show ?case by simp
next
  case (Cons col cols)
  from Cons.prems(1) [unfolded clean_cols_Cons_Inr]
  obtain vs where vs: "map_of df col = Some vs"
    and rest: "clean_cols to_num cols (setcol df col (map (clean_cell to_num) vs)) = Inr df'"
    by blast
  from vs have ne: "df \<noteq> []" by auto
  have len: "length (map (clean_cell to_num) vs) = nrows df"
    using wf_df_length [OF Cons.prems(2) vs] by simp
  have "wf_df (setcol df col (map (clean_cell to_num) vs))"
    by (rule wf_df_setcol [OF Cons.prems(2) ne len])
  from Cons.IH [OF rest this] show ?case by (simp add: nrows_setcol [OF ne len])
qed

lemma clean_cols_needs_columns:
  "clean_cols to_num cols df = Inr df' \<Longrightarrow> set cols \<subseteq> set (columns df)"
proof (induction cols arbitrary: df)
  case Nil
  then show ?case by simp
next
  case (Cons col cols)
  from Cons.prems(1) [unfolded clean_cols_Cons_Inr]
  obtain vs where vs: "map_of df col = Some vs"
    and rest: "clean_cols to_num cols (setcol df col (map (clean_cell to_num) vs)) = Inr df'"
    by blast
  from vs have c: "col \<in> set (columns df)" by (auto simp add: in_columns_iff)
  with Cons.IH [OF rest] show ?case by (simp add: columns_setcol)
qed

lemma distinct_finance_cols: "distinct finance_cols"
  by (simp add: finance_cols_def)

lemma derived_not_finance:
  "''Start Year'' \<notin> set finance_cols" "''Total Budget (INR Cr)'' \<notin> set finance_cols"
  "''Year'' \<notin> set finance_cols" "''Ministry Name'' \<notin> set finance_cols"
  "''Total Plan & Non-Plan'' \<in> set finance_cols"
  "''Total (Plan)'' \<in> set finance_cols" "''Total (Non-Plan)'' \<in> set finance_cols"
  by (simp_all add: finance_cols_def)

subsection \<open>The cells after cleaning\<close>

lemma is_number_clean_cell: "is_number (clean_cell to_num c)"
  by (cases c) (auto simp add: clean_cell_def fillna0_def to_numeric_def replace_tokens_def)

lemma clean_cell_placeholder:
  "clean_cell to_num (PyStr ''-'') = PyFloat (Finite 0)"
  "clean_cell to_num (PyStr ''NA'') = PyFloat (Finite 0)"
  "clean_cell to_num (PyFloat NaN) = PyFloat (Finite 0)"
  by (simp_all add: clean_cell_def fillna0_def to_numeric_def replace_tokens_def)

lemma clean_cell_unconvertible:
  "to_num s = NaN \<Longrightarrow> clean_cell to_num (PyStr s) = PyFloat (Finite 0)"
  by (simp add: clean_cell_def fillna0_def to_numeric_def replace_tokens_def)

subsection \<open>The start years\<close>

lemma map_exc_Inr_iff:
  "map_exc f xs = Inr ys \<longleftrightarrow> list_all2 (\<lambda>x y. f x = Inr y) xs ys"
proof (induction xs arbitrary: ys)
  case Nil
  then show ?case by auto
next
  case (Cons x xs)
  then show ?case
    by (cases ys) (auto simp add: and_then_Inr_iff)
qed

lemma map_exc_Inl:
  "map_exc f xs = Inl e \<Longrightarrow> \<exists>x \<in> set xs. f x = Inl e"
  by (induction xs) (auto simp add: and_then_Inl_iff)

lemma map_exc_total:
  "\<forall>x \<in> set xs. \<exists>y. f x = Inr y \<Longrightarrow> \<exists>ys. map_exc f xs = Inr ys"
  by (induction xs) auto

lemma start_year_of_Inr_iff:
  "start_year_of x = Inr y \<longleftrightarrow> (\<exists>s n. x = PyStr s \<and> py_int (split_first s) = Some n \<and> y = PyInt n)"
  by (cases x) (auto simp add: start_year_of_def split: option.splits)

lemma start_year_of_Inl:
  "start_year_of x = Inl e \<Longrightarrow> e = ValueError \<or> e = AttributeError"
  by (cases x) (auto simp add: start_year_of_def split: option.splits)

subsection \<open>The whole of the cleaner\<close>

lemma load_and_clean_data_Inr_iff:
  "load_and_clean_data read_csv to_num file_path = Inr df \<longleftrightarrow>
   (\<exists>raw df1 years start total.
      read_csv file_path = Inr raw \<and>
      clean_cols to_num finance_cols raw = Inr df1 \<and>
      map_of df1 ''Year'' = Some years \<and>
      map_exc start_year_of years = Inr start \<and>
      map_of df1 ''Total Plan & Non-Plan'' = Some total \<and>
      df = setcol (setcol df1 ''Start Year'' start) ''Total Budget (INR Cr)'' total)"
  by (auto simp add: load_and_clean_data_def and_then_Inr_iff getcol_Inr_iff apply_col_def
      map_of_setcol)

subsection \<open>The example file, cleaned\<close>

lemma example_load:
  "load_and_clean_data example_read example_to_num ''Budget.csv'' = Inr example_clean"
  by code_simp

section \<open>Properties of the cleaner\<close>

text \<open>
  Claim C2. Whenever the file is read and cleaning succeeds, each of the seven financial
  columns of the cleaned table is the column that was read with every cell cleaned in
  place, and every cleaned cell is numeric and not missing. A cell that was the
  placeholder \<^verbatim>\<open>-\<close> or \<^verbatim>\<open>NA\<close>, that was missing, or whose text does not convert to
  a number is zero afterwards.
\<close>

theorem financial_cells_numeric:
  assumes "read_csv file_path = Inr raw"
    and "load_and_clean_data read_csv to_num file_path = Inr df"
    and "col \<in> set finance_cols"
  shows "\<exists>vs. getcol raw col = Inr vs \<and>
           getcol df col = Inr (map (clean_cell to_num) vs) \<and>
           (\<forall>c \<in> set vs.
              is_number (clean_cell to_num c) \<and>
              (c = PyStr ''-'' \<or> c = PyStr ''NA'' \<or> c = PyFloat NaN \<or>
               (\<exists>s. c = PyStr s \<and> to_num s = NaN)
               \<longrightarrow> clean_cell to_num c = PyFloat (Finite 0)))"
proof -
  from assms(1,2) obtain df1 start total where
    df1: "clean_cols to_num finance_cols raw = Inr df1" and
    df: "df = setcol (setcol df1 ''Start Year'' start) ''Total Budget (INR Cr)'' total"
    by (auto simp add: load_and_clean_data_Inr_iff)
  from assms(3) have ne: "col \<noteq> ''Start Year''" "col \<noteq> ''Total Budget (INR Cr)''"
    using derived_not_finance by auto
  from clean_cols_needs_columns [OF df1] assms(3)
  have "col \<in> set (columns raw)" by blast
  then obtain vs where vs: "map_of raw col = Some vs"
    by (auto simp add: in_columns_iff)
  have "map_of df1 col = Some (map (clean_cell to_num) vs)"
    using clean_cols_map_of [OF df1 distinct_finance_cols, of col] assms(3) vs by simp
  then have "getcol df col = Inr (map (clean_cell to_num) vs)"
    using ne by (simp add: df getcol_setcol getcol_Inr_iff)
  moreover have "getcol raw col = Inr vs"
    using vs by (simp add: getcol_Inr_iff)
  ultimately show ?thesis
    by (auto simp add: is_number_clean_cell clean_cell_placeholder clean_cell_unconvertible)
qed

text \<open>
  In the example file the column \<^verbatim>\<open>Revenue (Plan)\<close> reads \<^verbatim>\<open>-\<close>, \<^verbatim>\<open>10\<close>, a missing
  value, \<^verbatim>\<open>2\<close>; cleaned it is \<open>0.0\<close>, \<open>10.0\<close>, \<open>0.0\<close>, \<open>2.0\<close>.
\<close>

theorem financial_cells_numeric_witness:
  "getcol example_csv ''Revenue (Plan)'' = Inr [PyStr ''-'', PyStr ''10'', PyFloat NaN, PyStr ''2''] \<and>
   load_and_clean_data example_read example_to_num ''Budget.csv'' = Inr example_clean \<and>
   getcol example_clean ''Revenue (Plan)'' =
     Inr [PyFloat (Finite 0), PyFloat (Finite 10), PyFloat (Finite 0), PyFloat (Finite 2)]"
proof -
  have r: "example_read ''Budget.csv'' = Inr example_csv"
    by (simp add: example_read_def)
  have c: "''Revenue (Plan)'' \<in> set finance_cols"
    by (simp add: finance_cols_def)
  have g: "getcol example_csv ''Revenue (Plan)'' = Inr [PyStr ''-'', PyStr ''10'', PyFloat NaN, PyStr ''2'']"
    by (simp add: getcol_def example_csv_def)
  have v: "map (clean_cell example_to_num) [PyStr ''-'', PyStr ''10'', PyFloat NaN, PyStr ''2''] =
           [PyFloat (Finite 0), PyFloat (Finite 10), PyFloat (Finite 0), PyFloat (Finite 2)]"
    by code_simp
  from financial_cells_numeric [OF r example_load c] g v
  have "getcol example_clean ''Revenue (Plan)'' =
          Inr [PyFloat (Finite 0), PyFloat (Finite 10), PyFloat (Finite 0), PyFloat (Finite 2)]"
    by auto
  with example_load g show ?thesis by blast
qed

text \<open>
  Claim C7. When the file is read, has the seven financial columns, and every cell of
  its column \<^verbatim>\<open>Year\<close> is a text whose part before the first \<^verbatim>\<open>-\<close> is an integer
  literal, cleaning succeeds; row by row \<^verbatim>\<open>Start Year\<close> is the integer that part
  denotes, and the column \<^verbatim>\<open>Total Budget (INR Cr)\<close> is the cleaned column
  \<^verbatim>\<open>Total Plan & Non-Plan\<close>. In particular \<^verbatim>\<open>2015-2016\<close> gives 2015, and a total
  \<^verbatim>\<open>1234.5\<close> that converts to the float 1234.5 stays 1234.5.
\<close>

theorem start_year_and_total_budget:
  assumes "read_csv file_path = Inr raw"
    and "set finance_cols \<subseteq> set (columns raw)"
    and "getcol raw ''Year'' = Inr years"
    and "\<forall>y \<in> set years. \<exists>s n. y = PyStr s \<and> py_int (split_first s) = Some n"
  shows "\<exists>df start total.
           load_and_clean_data read_csv to_num file_path = Inr df \<and>
           getcol df ''Start Year'' = Inr start \<and>
           list_all2 (\<lambda>y v. \<exists>s n. y = PyStr s \<and> py_int (split_first s) = Some n \<and> v = PyInt n)
             years start \<and>
           getcol df ''Total Plan & Non-Plan'' = Inr total \<and>
           getcol df ''Total Budget (INR Cr)'' = Inr total \<and>
           py_int (split_first ''2015-2016'') = Some 2015 \<and>
           (to_num ''1234.5'' = Finite (2469 / 2) \<longrightarrow>
              clean_cell to_num (PyStr ''1234.5'') = PyFloat (Finite (2469 / 2)))"
proof -
  from clean_cols_total [OF assms(2)] obtain df1 where
    df1: "clean_cols to_num finance_cols raw = Inr df1" by blast
  have y1: "map_of df1 ''Year'' = Some years"
    using clean_cols_map_of [OF df1 distinct_finance_cols, of "''Year''"] assms(3)
      derived_not_finance(3)
    by (simp add: getcol_Inr_iff)
  have "\<forall>y \<in> set years. \<exists>v. start_year_of y = Inr v"
    using assms(4) by (auto simp add: start_year_of_Inr_iff)
  from map_exc_total [OF this] obtain start where
    st: "map_exc start_year_of years = Inr start" by blast
  have "''Total Plan & Non-Plan'' \<in> set (columns df1)"
    using assms(2) derived_not_finance(5) clean_cols_columns [OF df1] by auto
  then obtain total where tot: "map_of df1 ''Total Plan & Non-Plan'' = Some total"
    by (auto simp add: in_columns_iff)
  define df where "df = setcol (setcol df1 ''Start Year'' start) ''Total Budget (INR Cr)'' total"
  have l: "load_and_clean_data read_csv to_num file_path = Inr df"
    unfolding load_and_clean_data_Inr_iff df_def
    using assms(1) df1 y1 st tot by blast
  have rel: "list_all2 (\<lambda>y v. \<exists>s n. y = PyStr s \<and> py_int (split_first s) = Some n \<and> v = PyInt n)
             years start"
    using st by (simp add: map_exc_Inr_iff start_year_of_Inr_iff)
  have g1: "getcol df ''Start Year'' = Inr start"
    by (simp add: df_def getcol_setcol)
  have g2: "getcol df ''Total Plan & Non-Plan'' = Inr total"
    using tot by (simp add: df_def getcol_setcol getcol_Inr_iff)
  have g3: "getcol df ''Total Budget (INR Cr)'' = Inr total"
    by (simp add: df_def getcol_setcol)
  have p: "py_int (split_first ''2015-2016'') = Some 2015"
    by code_simp
  have c: "to_num ''1234.5'' = Finite (2469 / 2) \<longrightarrow>
              clean_cell to_num (PyStr ''1234.5'') = PyFloat (Finite (2469 / 2))"
    by (simp add: clean_cell_def replace_tokens_def to_numeric_def fillna0_def)
  from l g1 rel g2 g3 p c show ?thesis by blast
qed

text \<open>
  The example file: its first row has Year \<^verbatim>\<open>2015-2016\<close> and total \<^verbatim>\<open>1234.5\<close>, and
  is cleaned to Start Year 2015 and Total Budget 1234.5.
\<close>

theorem start_year_and_total_budget_witness:
  "load_and_clean_data example_read example_to_num ''Budget.csv'' = Inr example_clean \<and>
   getcol example_csv ''Year'' = Inr [PyStr ''2015-2016'', PyStr ''2015-2016'', PyStr ''2015-2016'', PyStr ''2016-2017''] \<and>
   getcol example_csv ''Total Plan & Non-Plan'' = Inr [PyStr ''1234.5'', PyStr ''10'', PyStr ''9'', PyStr ''12''] \<and>
   getcol example_clean ''Start Year'' = Inr [PyInt 2015, PyInt 2015, PyInt 2015, PyInt 2016] \<and>
   getcol example_clean ''Total Plan & Non-Plan'' =
     Inr [PyFloat (Finite (2469 / 2)), PyFloat (Finite 10), PyFloat (Finite 9), PyFloat (Finite 12)] \<and>
   getcol example_clean ''Total Budget (INR Cr)'' =
     Inr [PyFloat (Finite (2469 / 2)), PyFloat (Finite 10), PyFloat (Finite 9), PyFloat (Finite 12)]"
proof -
  have r: "example_read ''Budget.csv'' = Inr example_csv"
    by (simp add: example_read_def)
  have f: "set finance_cols \<subseteq> set (columns example_csv)"
    by (simp add: finance_cols_def columns_def example_csv_def)
  have y: "getcol example_csv ''Year'' = Inr [PyStr ''2015-2016'', PyStr ''2015-2016'', PyStr ''2015-2016'', PyStr ''2016-2017'']"
    by (simp add: getcol_def example_csv_def)
  have t: "getcol example_csv ''Total Plan & Non-Plan'' = Inr [PyStr ''1234.5'', PyStr ''10'', PyStr ''9'', PyStr ''12'']"
    by (simp add: getcol_def example_csv_def)
  have p: "py_int (split_first ''2015-2016'') = Some 2015" "py_int (split_first ''2016-2017'') = Some 2016"
    by code_simp+
  then have w: "\<forall>y \<in> set [PyStr ''2015-2016'', PyStr ''2015-2016'', PyStr ''2015-2016'', PyStr ''2016-2017''].
                 \<exists>s n. y = PyStr s \<and> py_int (split_first s) = Some n"
    by simp
  from start_year_and_total_budget
    [where read_csv = example_read and file_path = "''Budget.csv''" and to_num = example_to_num,
     OF r f y w]
  obtain start total where
    g: "getcol example_clean ''Start Year'' = Inr start"
       "list_all2 (\<lambda>y v. \<exists>s n. y = PyStr s \<and> py_int (split_first s) = Some n \<and> v = PyInt n)
          [PyStr ''2015-2016'', PyStr ''2015-2016'', PyStr ''2015-2016'', PyStr ''2016-2017''] start"
       "getcol example_clean ''Total Plan & Non-Plan'' = Inr total"
       "getcol example_clean ''Total Budget (INR Cr)'' = Inr total"
    by (auto simp add: example_load)
  from g(2) p have "start = [PyInt 2015, PyInt 2015, PyInt 2015, PyInt 2016]"
    by (auto simp add: list_all2_Cons1)
  moreover have "total = [PyFloat (Finite (2469 / 2)), PyFloat (Finite 10), PyFloat (Finite 9), PyFloat (Finite 12)]"
    using g(3) by (simp add: getcol_def example_clean_def)
  ultimately show ?thesis using g(1,3,4) example_load y t by simp
qed

text \<open>
  Claim C10, as amended. Let the table that was read be well formed and hold no column named
  \<^verbatim>\<open>Start Year\<close> or \<^verbatim>\<open>Total Budget (INR Cr)\<close> yet (the file's schema has none). If
  cleaning succeeds, the cleaned table has the columns that were read, in their order,
  followed by exactly these two; every column outside the seven financial ones, in
  particular \<^verbatim>\<open>Ministry Name\<close> and \<^verbatim>\<open>Year\<close>, is the same list of cells as before;
  a financial column is the old one cleaned cell by cell at the same positions; and the
  number of rows is that of the table read, in every column.
\<close>

theorem cleaning_frame:
  assumes "read_csv file_path = Inr raw"
    and "load_and_clean_data read_csv to_num file_path = Inr df"
    and "wf_df raw"
    and "''Start Year'' \<notin> set (columns raw)"
    and "''Total Budget (INR Cr)'' \<notin> set (columns raw)"
  shows "columns df = columns raw @ [''Start Year'', ''Total Budget (INR Cr)''] \<and>
         (\<forall>c \<in> set (columns raw). c \<notin> set finance_cols \<longrightarrow> getcol df c = getcol raw c) \<and>
         getcol df ''Ministry Name'' = getcol raw ''Ministry Name'' \<and>
         getcol df ''Year'' = getcol raw ''Year'' \<and>
         (\<forall>c \<in> set finance_cols. \<exists>vs. getcol raw c = Inr vs \<and>
            getcol df c = Inr (map (clean_cell to_num) vs)) \<and>
         nrows df = nrows raw \<and> wf_df df"
proof -
  from assms(1,2) obtain df1 years start total where
    df1: "clean_cols to_num finance_cols raw = Inr df1" and
    ys: "map_of df1 ''Year'' = Some years" and
    st: "map_exc start_year_of years = Inr start" and
    tot: "map_of df1 ''Total Plan & Non-Plan'' = Some total" and
    df: "df = setcol (setcol df1 ''Start Year'' start) ''Total Budget (INR Cr)'' total"
    by (auto simp add: load_and_clean_data_Inr_iff)
  have cols1: "columns df1 = columns raw" by (rule clean_cols_columns [OF df1])
  have m1: "\<And>k. map_of df1 k =
      (if k \<in> set finance_cols then map_option (map (clean_cell to_num)) (map_of raw k) else map_of raw k)"
    by (rule clean_cols_map_of [OF df1 distinct_finance_cols])
  have wf1: "wf_df df1" and n1: "nrows df1 = nrows raw"
    using clean_cols_wf [OF df1 assms(3)] by simp_all
  have cols: "columns df = columns raw @ [''Start Year'', ''Total Budget (INR Cr)'']"
    using assms(4,5) by (simp add: df columns_setcol cols1)
  have mm: "\<And>c. c \<noteq> ''Start Year'' \<Longrightarrow> c \<noteq> ''Total Budget (INR Cr)'' \<Longrightarrow>
      map_of df c = map_of df1 c"
    by (simp add: df map_of_setcol)
  have other: "\<And>c. c \<in> set (columns raw) \<Longrightarrow> c \<notin> set finance_cols \<Longrightarrow> getcol df c = getcol raw c"
  proof -
    fix c assume c: "c \<in> set (columns raw)" "c \<notin> set finance_cols"
    with assms(4,5) have "c \<noteq> ''Start Year''" "c \<noteq> ''Total Budget (INR Cr)''" by auto
    from mm [OF this] c(2) show "getcol df c = getcol raw c"
      by (simp add: getcol_def m1)
  qed
  have mn: "getcol df ''Ministry Name'' = getcol raw ''Ministry Name''"
    using derived_not_finance(4) mm [of "''Ministry Name''"] by (simp add: getcol_def m1)
  have yr: "getcol df ''Year'' = getcol raw ''Year''"
    using derived_not_finance(3) mm [of "''Year''"] by (simp add: getcol_def m1)
  have fin: "\<And>c. c \<in> set finance_cols \<Longrightarrow>
      \<exists>vs. getcol raw c = Inr vs \<and> getcol df c = Inr (map (clean_cell to_num) vs)"
  proof -
    fix c assume c: "c \<in> set finance_cols"
    with clean_cols_needs_columns [OF df1] have "c \<in> set (columns raw)" by blast
    then obtain vs where vs: "map_of raw c = Some vs" by (auto simp add: in_columns_iff)
    from c have "c \<noteq> ''Start Year''" "c \<noteq> ''Total Budget (INR Cr)''"
      using derived_not_finance by auto
    from mm [OF this] show "\<exists>vs. getcol raw c = Inr vs \<and> getcol df c = Inr (map (clean_cell to_num) vs)"
      using vs c by (simp add: getcol_def m1)
  qed
  from ys have ne1: "df1 \<noteq> []" by auto
  have "length start = length years"
    using st by (auto simp add: map_exc_Inr_iff dest: list_all2_lengthD)
  then have ls: "length start = nrows df1"
    using wf_df_length [OF wf1 ys] by simp
  have wf2: "wf_df (setcol df1 ''Start Year'' start)"
    by (rule wf_df_setcol [OF wf1 ne1 ls])
  have n2: "nrows (setcol df1 ''Start Year'' start) = nrows df1"
    by (rule nrows_setcol [OF ne1 ls])
  have lt: "length total = nrows (setcol df1 ''Start Year'' start)"
    using wf_df_length [OF wf1 tot] n2 by simp
  have wf: "wf_df df"
    unfolding df by (rule wf_df_setcol [OF wf2 _ lt]) simp
  have n: "nrows df = nrows raw"
    unfolding df using nrows_setcol [OF _ lt, of "''Total Budget (INR Cr)''"] n2 n1 by simp
  from cols other mn yr fin n wf show ?thesis by blast
qed

lemma wf_example_csv: "wf_df example_csv"
  by (simp add: wf_df_def example_csv_def nrows_def)

text \<open>The example file: nine columns and four rows before, eleven and four after.\<close>

theorem cleaning_frame_witness:
  "load_and_clean_data example_read example_to_num ''Budget.csv'' = Inr example_clean \<and>
   columns example_clean = columns example_csv @ [''Start Year'', ''Total Budget (INR Cr)''] \<and>
   getcol example_clean ''Ministry Name'' = getcol example_csv ''Ministry Name'' \<and>
   getcol example_clean ''Year'' = getcol example_csv ''Year'' \<and>
   nrows example_clean = 4 \<and> nrows example_csv = 4"
proof -
  have r: "example_read ''Budget.csv'' = Inr example_csv"
    by (simp add: example_read_def)
  have a: "''Start Year'' \<notin> set (columns example_csv)"
    by (simp add: columns_def example_csv_def)
  have b: "''Total Budget (INR Cr)'' \<notin> set (columns example_csv)"
    by (simp add: columns_def example_csv_def)
  have n: "nrows example_csv = 4"
    by (simp add: nrows_def example_csv_def)
  from cleaning_frame [OF r example_load wf_example_csv a b] n example_load
  show ?thesis by simp
qed

text \<open>
  Claim C10, as stated, at the example file with one more column, named \<^verbatim>\<open>Start Year\<close>
  already and holding the texts \<^verbatim>\<open>FY15\<close> and \<^verbatim>\<open>FY16\<close>. It is not one of the seven
  financial columns. Cleaning succeeds, overwrites it in place with the years parsed from
  \<^verbatim>\<open>Year\<close>, and appends one column, not two.
\<close>

theorem preset_start_year_counterexample:
  "preset_read ''Budget.csv'' = Inr preset_csv \<and> wf_df preset_csv \<and>
   load_and_clean_data preset_read example_to_num ''Budget.csv'' = Inr example_clean \<and>
   ''Start Year'' \<in> set (columns preset_csv) \<and> ''Start Year'' \<notin> set finance_cols \<and>
   getcol preset_csv ''Start Year'' = Inr [PyStr ''FY15'', PyStr ''FY15'', PyStr ''FY15'', PyStr ''FY16''] \<and>
   getcol example_clean ''Start Year'' = Inr [PyInt 2015, PyInt 2015, PyInt 2015, PyInt 2016] \<and>
   getcol example_clean ''Start Year'' \<noteq> getcol preset_csv ''Start Year'' \<and>
   columns example_clean = columns preset_csv @ [''Total Budget (INR Cr)''] \<and>
   columns example_clean \<noteq> columns preset_csv @ [''Start Year'', ''Total Budget (INR Cr)''] \<and>
   length (columns preset_csv) = 10 \<and> length (columns example_clean) = 11"
proof -
  have 1: "preset_read ''Budget.csv'' = Inr preset_csv"
    by (simp add: preset_read_def)
  have 2: "wf_df preset_csv"
    by code_simp
  have 3: "load_and_clean_data preset_read example_to_num ''Budget.csv'' = Inr example_clean"
    by code_simp
  have 4: "''Start Year'' \<in> set (columns preset_csv)"
    by code_simp
  have 5: "''Start Year'' \<notin> set finance_cols"
    by code_simp
  have 6: "getcol preset_csv ''Start Year'' =
      Inr [PyStr ''FY15'', PyStr ''FY15'', PyStr ''FY15'', PyStr ''FY16'']"
    by code_simp
  have 7: "getcol example_clean ''Start Year'' = Inr [PyInt 2015, PyInt 2015, PyInt 2015, PyInt 2016]"
    by code_simp
  have 8: "getcol example_clean ''Start Year'' \<noteq> getcol preset_csv ''Start Year''"
    unfolding 6 7 by simp
  have 9: "columns example_clean = columns preset_csv @ [''Total Budget (INR Cr)'']"
    by code_simp
  have 10: "columns example_clean \<noteq> columns preset_csv @ [''Start Year'', ''Total Budget (INR Cr)'']"
    unfolding 9 by simp
  have 11: "length (columns preset_csv) = 10"
    by code_simp
  have 12: "length (columns example_clean) = 11"
    by code_simp
  from 1 2 3 4 5 6 7 8 9 10 11 12 show ?thesis by (intro conjI)
qed

subsection \<open>Rows of a table, and tables of chosen rows\<close>

lemma columns_iloc: "columns (iloc idxs df) = columns df"
  by (simp add: columns_def iloc_def comp_def case_prod_beta)

lemma map_of_iloc:
  "map_of (iloc idxs df) c = map_option (\<lambda>vs. map (\<lambda>i. vs ! i) idxs) (map_of df c)"
  by (induction df) (auto simp add: iloc_def)

lemma getcol_iloc:
  "getcol df c = Inr vs \<Longrightarrow> getcol (iloc idxs df) c = Inr (map (\<lambda>i. vs ! i) idxs)"
  by (simp add: getcol_Inr_iff map_of_iloc)

lemma iloc_Nil_iff [simp]: "iloc idxs df = [] \<longleftrightarrow> df = []"
  by (simp add: iloc_def)

lemma nrows_iloc: "df \<noteq> [] \<Longrightarrow> nrows (iloc idxs df) = length idxs"
  by (cases df) (auto simp add: nrows_def iloc_def)

lemma wf_df_iloc: "wf_df df \<Longrightarrow> wf_df (iloc idxs df)"
proof (cases "df = []")
  case True
  then show ?thesis by (simp add: iloc_def wf_df_def)
next
  case False
  assume "wf_df df"
  then have "distinct (map fst (iloc idxs df))"
    using columns_iloc [of idxs df] by (simp add: wf_df_def columns_def)
  moreover have "\<forall>(c, vs) \<in> set (iloc idxs df). length vs = length idxs"
    by (auto simp add: iloc_def)
  ultimately show ?thesis
    using False by (simp add: wf_df_def nrows_iloc)
qed

lemma row_at_iloc:
  "j < length idxs \<Longrightarrow> row_at (iloc idxs df) j = row_at df (idxs ! j)"
  by (simp add: row_at_def iloc_def comp_def case_prod_beta)

lemma rows_of_iloc:
  assumes "df \<noteq> []"
  shows "rows_of (iloc idxs df) = map (row_at df) idxs"
proof -
  have "rows_of (iloc idxs df) = map (row_at (iloc idxs df)) [0..<length idxs]"
    using assms by (simp add: rows_of_def nrows_iloc)
  also have "\<dots> = map (\<lambda>j. row_at df (idxs ! j)) [0..<length idxs]"
    by (simp add: row_at_iloc)
  also have "\<dots> = map (row_at df) (map (\<lambda>j. idxs ! j) [0..<length idxs])"
    by simp
  also have "\<dots> = map (row_at df) idxs"
    by (simp add: map_nth)
  finally show ?thesis .
qed

lemma field_row_at: "field (row_at df i) c = map_option (\<lambda>vs. vs ! i) (map_of df c)"
  unfolding field_def row_at_def by (induction df) auto

subsection \<open>The filters\<close>

lemma filter_eq_rows:
  assumes wf: "wf_df df" and col: "getcol df col = Inr vs"
  shows "\<exists>out. filter_eq df col selected = Inr out \<and>
           rows_of out = filter (\<lambda>r. field_eq r col selected) (rows_of df) \<and>
           wf_df out \<and> columns out = columns df"
proof -
  define keep where "keep = map (\<lambda>v. py_eq v selected) vs"
  define out where "out = boolean_index keep df"
  from col have m: "map_of df col = Some vs" by (simp add: getcol_Inr_iff)
  then have ne: "df \<noteq> []" by auto
  have len: "length vs = nrows df" by (rule wf_df_length [OF wf m])
  have f: "filter_eq df col selected = Inr out"
    by (simp add: filter_eq_def col out_def keep_def)
  have k: "\<And>i. i < nrows df \<Longrightarrow> keep ! i = field_eq (row_at df i) col selected"
    using len m by (simp add: keep_def field_eq_def field_row_at)
  have "rows_of out = map (row_at df) [i \<leftarrow> [0..<nrows df]. keep ! i]"
    unfolding out_def boolean_index_def by (rule rows_of_iloc [OF ne])
  also have "[i \<leftarrow> [0..<nrows df]. keep ! i] =
             [i \<leftarrow> [0..<nrows df]. field_eq (row_at df i) col selected]"
    by (rule filter_cong) (simp_all add: k)
  also have "map (row_at df) \<dots> = filter (\<lambda>r. field_eq r col selected) (rows_of df)"
    by (simp add: rows_of_def filter_map comp_def)
  finally have r: "rows_of out = filter (\<lambda>r. field_eq r col selected) (rows_of df)" .
  have w: "wf_df out" unfolding out_def boolean_index_def by (rule wf_df_iloc [OF wf])
  have c: "columns out = columns df" by (simp add: out_def boolean_index_def columns_iloc)
  from f r w c show ?thesis by blast
qed

lemma getcol_total: "c \<in> set (columns df) \<Longrightarrow> \<exists>vs. getcol df c = Inr vs"
  by (auto simp add: in_columns_iff getcol_Inr_iff)

text \<open>
  Claim C5. On a well-formed table that has the columns \<^verbatim>\<open>Ministry Name\<close> and
  \<^verbatim>\<open>Start Year\<close> (as every cleaned table has), the two filters succeed for every pair of
  selections, and the rows of the result are exactly the rows of the table that pass
  every active selection, in their original order; the columns are unchanged. When no
  row passes, the result is the table with no rows, not an exception.
\<close>

theorem filters_select_matching_rows:
  assumes "wf_df df"
    and "''Ministry Name'' \<in> set (columns df)"
    and "''Start Year'' \<in> set (columns df)"
  shows "\<exists>out. apply_filters df selected_ministry selected_year = Inr out \<and>
           rows_of out = filter (passes selected_ministry selected_year) (rows_of df) \<and>
           columns out = columns df \<and>
           ((\<forall>r \<in> set (rows_of df). \<not> passes selected_ministry selected_year r) \<longrightarrow> nrows out = 0)"
proof -
  let ?am = "py_eq selected_ministry (PyStr ''All Ministries'')"
  let ?ay = "py_eq selected_year (PyStr ''All Years'')"
  have "\<exists>d1. (if \<not> ?am then filter_eq df ''Ministry Name'' selected_ministry else Inr df) = Inr d1 \<and>
          rows_of d1 = filter (\<lambda>r. ?am \<or> field_eq r ''Ministry Name'' selected_ministry) (rows_of df) \<and>
          wf_df d1 \<and> columns d1 = columns df"
  proof (cases ?am)
    case True
    then show ?thesis using assms(1) by simp
  next
    case False
    from getcol_total [OF assms(2)] obtain vs where "getcol df ''Ministry Name'' = Inr vs" by blast
    from filter_eq_rows [OF assms(1) this, of selected_ministry] False show ?thesis by simp
  qed
  then obtain d1 where
    s1: "(if \<not> ?am then filter_eq df ''Ministry Name'' selected_ministry else Inr df) = Inr d1" and
    r1: "rows_of d1 = filter (\<lambda>r. ?am \<or> field_eq r ''Ministry Name'' selected_ministry) (rows_of df)" and
    w1: "wf_df d1" and c1: "columns d1 = columns df"
    by blast
  have "\<exists>out. (if \<not> ?ay then filter_eq d1 ''Start Year'' selected_year else Inr d1) = Inr out \<and>
          rows_of out = filter (\<lambda>r. ?ay \<or> field_eq r ''Start Year'' selected_year) (rows_of d1) \<and>
          wf_df out \<and> columns out = columns d1"
  proof (cases ?ay)
    case True
    then show ?thesis using w1 by simp
  next
    case False
    from assms(3) c1 have "''Start Year'' \<in> set (columns d1)" by simp
    from getcol_total [OF this] obtain vs where "getcol d1 ''Start Year'' = Inr vs" by blast
    from filter_eq_rows [OF w1 this, of selected_year] False show ?thesis by simp
  qed
  then obtain out where
    s2: "(if \<not> ?ay then filter_eq d1 ''Start Year'' selected_year else Inr d1) = Inr out" and
    r2: "rows_of out = filter (\<lambda>r. ?ay \<or> field_eq r ''Start Year'' selected_year) (rows_of d1)" and
    w2: "wf_df out" and c2: "columns out = columns d1"
    by blast
  have a: "apply_filters df selected_ministry selected_year = Inr out"
    unfolding apply_filters_def using s1 s2 by simp
  have r: "rows_of out = filter (passes selected_ministry selected_year) (rows_of df)"
    unfolding r2 r1 by (simp add: passes_def [abs_def])
  have e: "(\<forall>r \<in> set (rows_of df). \<not> passes selected_ministry selected_year r) \<longrightarrow> nrows out = 0"
  proof
    assume "\<forall>r \<in> set (rows_of df). \<not> passes selected_ministry selected_year r"
    then have "rows_of out = []" unfolding r by simp
    then show "nrows out = 0" by (simp add: rows_of_def)
  qed
  from a r c1 c2 e show ?thesis by simp
qed

text \<open>
  The cleaned example, filtered to Defence in 2015: its rows 0 and 2 pass, in that order.
  Filtered to Health in 2016, no row passes and the result has no rows.
\<close>

theorem filters_select_matching_rows_witness:
  "wf_df example_clean \<and>
   apply_filters example_clean (PyStr ''Defence'') (PyInt 2015) = Inr (iloc [0, 2] example_clean) \<and>
   rows_of (iloc [0, 2] example_clean) =
     filter (passes (PyStr ''Defence'') (PyInt 2015)) (rows_of example_clean) \<and>
   apply_filters example_clean (PyStr ''Health'') (PyInt 2016) = Inr (iloc [] example_clean) \<and>
   nrows (iloc [] example_clean) = 0"
proof -
  have w: "wf_df example_clean"
    by (simp add: wf_df_def example_clean_def nrows_def)
  have m: "''Ministry Name'' \<in> set (columns example_clean)"
    by (simp add: columns_def example_clean_def)
  have y: "''Start Year'' \<in> set (columns example_clean)"
    by (simp add: columns_def example_clean_def)
  have a: "apply_filters example_clean (PyStr ''Defence'') (PyInt 2015) = Inr (iloc [0, 2] example_clean)"
    by code_simp
  have b: "apply_filters example_clean (PyStr ''Health'') (PyInt 2016) = Inr (iloc [] example_clean)"
    by code_simp
  have n: "nrows (iloc [] example_clean) = 0"
    by code_simp
  from filters_select_matching_rows [OF w m y, of "PyStr ''Defence''" "PyInt 2015"] a
  have "rows_of (iloc [0, 2] example_clean) =
     filter (passes (PyStr ''Defence'') (PyInt 2015)) (rows_of example_clean)"
    by auto
  with w a b n show ?thesis by simp
qed

text \<open>
  Claim C6. With both selectors at their sentinels, \<^verbatim>\<open>All Ministries\<close> and
  \<^verbatim>\<open>All Years\<close>, the filters return the table itself.
\<close>

theorem filters_all_all_identity:
  "apply_filters df (PyStr ''All Ministries'') (PyStr ''All Years'') = Inr df"
  by (simp add: apply_filters_def)

theorem filters_all_all_identity_witness:
  "apply_filters example_clean (PyStr ''All Ministries'') (PyStr ''All Years'') = Inr example_clean"
  using filters_all_all_identity [of example_clean] by simp

subsection \<open>What cleaning establishes\<close>

lemma col_all_iff: "col_all P df col \<longleftrightarrow> (\<exists>vs. map_of df col = Some vs \<and> list_all P vs)"
  by (simp add: col_all_def split: option.splits)










subsection \<open>The aggregations do not raise on a cleaned table\<close>












lemma is_number_num_key: "is_number v \<Longrightarrow> num_key v \<noteq> None"
  by (cases v) auto


lemma set_unique [simp]: "set (unique xs) = set xs"
proof -
  have "\<And>seen. set (fold (\<lambda>x seen. if x \<in> set seen then seen else x # seen) xs seen) = set xs \<union> set seen"
    by (induction xs) auto
  then show ?thesis by (simp add: unique_def)
qed







lemma df_plan_nonplan_eq:
  assumes "getcol f ''Start Year'' = Inr ys" "getcol f ''Total (Plan)'' = Inr ps"
    "getcol f ''Total (Non-Plan)'' = Inr ns"
  shows "df_plan_nonplan f =
     Inr [(''Start Year'', ys @ ys),
          (''Type'', map (\<lambda>_. PyStr ''Total (Plan)'') ps @ map (\<lambda>_. PyStr ''Total (Non-Plan)'') ns),
          (''Amount'', ps @ ns)]"
  using assms by (simp add: df_plan_nonplan_def select_cols_def melt_def getcol_def)



lemma dashboard_Inr:
  assumes "dashboard lib df ms ys selected_ministry selected_year = Inr out"
  shows "apply_filters df selected_ministry selected_year = Inr (filtered out) \<and>
         cleaned out = df \<and>
         key_metrics lib (filtered out) = Inr (metrics out) \<and>
         df_trend lib df = Inr (trend out) \<and>
         detailed_breakdown (filtered out) selected_ministry selected_year = Inr (tab2 out)"
  using assms unfolding dashboard_def by (auto simp add: and_then_Inr_iff)




subsection \<open>The guard around loading\<close>

lemma load_and_clean_data_Inl:
  assumes "read_csv file_path = Inr raw"
    and "load_and_clean_data read_csv to_num file_path = Inl e"
  shows "(\<exists>c. e = KeyError c) \<or> e = ValueError \<or> e = AttributeError"
proof -
  from assms have
    "(\<exists>c. e = KeyError c) \<or> (\<exists>years. map_exc start_year_of years = Inl e)"
    by (auto simp add: load_and_clean_data_def and_then_Inl_iff getcol_Inl_iff apply_col_def
        dest: clean_cols_Inl)
  then show ?thesis
    by (auto dest!: map_exc_Inl start_year_of_Inl)
qed

lemma main_load_failure:
  "load_and_clean_data read_csv to_num ''Budget.csv'' = Inl e \<Longrightarrow>
   main lib read_csv to_num selected_ministry selected_year =
     (if is_Exception e then Stopped e else Uncaught e)"
  by (simp add: main_def load_block_def)

lemma map_exc_first_failure:
  "x \<in> set xs \<Longrightarrow> f x = Inl e0 \<Longrightarrow> \<exists>e. map_exc f xs = Inl e \<and> (\<exists>y \<in> set xs. f y = Inl e)"
proof (induction xs)
  case Nil
  then show ?case by simp
next
  case (Cons a xs)
  show ?case
  proof (cases "f a")
    case (Inl e)
    then show ?thesis by auto
  next
    case (Inr b)
    with Cons.prems have "x \<in> set xs" by auto
    from Cons.IH [OF this Cons.prems(2)] Inr show ?thesis by auto
  qed
qed

text \<open>
  Claim C1, as amended. Let the file be read and have the seven financial columns and a
  column \<^verbatim>\<open>Year\<close>. If some Year cell is malformed (it is not text, or the text before
  its first \<^verbatim>\<open>-\<close> is not an integer literal), then \<^verbatim>\<open>load_and_clean_data\<close> raises
  \<^verbatim>\<open>ValueError\<close> or \<^verbatim>\<open>AttributeError\<close>, and the handler \<^verbatim>\<open>except Exception\<close> around
  the call catches it: the run reports the error and stops, whatever is selected; it
  does not leave the script uncaught.
\<close>

theorem malformed_year_is_caught:
  assumes "read_csv ''Budget.csv'' = Inr raw"
    and "set finance_cols \<subseteq> set (columns raw)"
    and "getcol raw ''Year'' = Inr years"
    and "y \<in> set years"
    and "start_year_of y = Inl e0"
  shows "\<exists>e. load_and_clean_data read_csv to_num ''Budget.csv'' = Inl e \<and>
           (e = ValueError \<or> e = AttributeError) \<and> is_Exception e \<and>
           main lib read_csv to_num selected_ministry selected_year = Stopped e \<and>
           main lib read_csv to_num selected_ministry selected_year \<noteq> Uncaught e"
proof -
  from clean_cols_total [OF assms(2)] obtain df1 where
    df1: "clean_cols to_num finance_cols raw = Inr df1" by blast
  have y1: "getcol df1 ''Year'' = Inr years"
    using clean_cols_map_of [OF df1 distinct_finance_cols, of "''Year''"] assms(3)
      derived_not_finance(3)
    by (simp add: getcol_Inr_iff)
  from map_exc_first_failure [where f = start_year_of, OF assms(4,5)] obtain e where
    e: "map_exc start_year_of years = Inl e" and "\<exists>y \<in> set years. start_year_of y = Inl e"
    by blast
  then have k: "e = ValueError \<or> e = AttributeError"
    by (auto dest: start_year_of_Inl)
  have l: "load_and_clean_data read_csv to_num ''Budget.csv'' = Inl e"
    by (simp add: load_and_clean_data_def assms(1) df1 y1 apply_col_def e)
  from k have x: "is_Exception e" by auto
  from main_load_failure [OF l] x
  have "main lib read_csv to_num selected_ministry selected_year = Stopped e" by simp
  with l k x show ?thesis by auto
qed

text \<open>
  The file with the Year cell \<^verbatim>\<open>FY15-2016\<close>: loading raises \<^verbatim>\<open>ValueError\<close>, and the
  run stops with that error reported.
\<close>

theorem malformed_year_is_caught_witness:
  "malformed_read ''Budget.csv'' = Inr malformed_csv \<and>
   start_year_of (PyStr ''FY15-2016'') = Inl ValueError \<and>
   (\<exists>e. load_and_clean_data malformed_read example_to_num ''Budget.csv'' = Inl e \<and>
        main plain_host malformed_read example_to_num (PyStr ''All Ministries'') (PyStr ''All Years'') = Stopped e)"
proof -
  have r: "malformed_read ''Budget.csv'' = Inr malformed_csv"
    by (simp add: malformed_read_def)
  have f: "set finance_cols \<subseteq> set (columns malformed_csv)"
    by code_simp
  have y: "getcol malformed_csv ''Year'' =
      Inr [PyStr ''2015-2016'', PyStr ''FY15-2016'', PyStr ''2015-2016'', PyStr ''2016-2017'']"
    by (simp add: malformed_csv_def getcol_setcol)
  have m: "PyStr ''FY15-2016'' \<in>
      set [PyStr ''2015-2016'', PyStr ''FY15-2016'', PyStr ''2015-2016'', PyStr ''2016-2017'']"
    by simp
  have s: "start_year_of (PyStr ''FY15-2016'') = Inl ValueError"
    by code_simp
  from malformed_year_is_caught
    [where read_csv = malformed_read and to_num = example_to_num and lib = plain_host
       and selected_ministry = "PyStr ''All Ministries''" and selected_year = "PyStr ''All Years''",
     OF r f y m s]
  show ?thesis using r s by blast
qed

text \<open>
  Claim C1, as stated, at that file: the claim has the error leave the script uncaught;
  the run ends in the handler.
\<close>

theorem malformed_year_uncaught_counterexample:
  "load_and_clean_data malformed_read example_to_num ''Budget.csv'' = Inl ValueError \<and>
   main plain_host malformed_read example_to_num (PyStr ''All Ministries'') (PyStr ''All Years'') = Stopped ValueError \<and>
   main plain_host malformed_read example_to_num (PyStr ''All Ministries'') (PyStr ''All Years'') \<noteq> Uncaught ValueError"
proof -
  have l: "load_and_clean_data malformed_read example_to_num ''Budget.csv'' = Inl ValueError"
    by code_simp
  from main_load_failure [OF l, of plain_host] have
    "main plain_host malformed_read example_to_num (PyStr ''All Ministries'') (PyStr ''All Years'') = Stopped ValueError"
    by simp
  with l show ?thesis by simp
qed

subsection \<open>The metrics and the rest of the run\<close>







subsection \<open>Sorting by a numeric column, and the first rows\<close>

lemma head_iloc: "head n (iloc idxs df) = iloc (take n idxs) df"
  by (simp add: head_def iloc_def comp_def case_prod_beta take_map)

lemma is_number_key_not_nan: "is_number v \<Longrightarrow> the (num_key v) \<noteq> fkey NaN"
proof (cases v)
  case (PyFloat f)
  assume "is_number v"
  with PyFloat show ?thesis by (cases f) auto
qed auto

lemma argsort_desc_no_nan:
  assumes "\<forall>k \<in> set ks. k \<noteq> fkey NaN"
  shows "argsort_desc ks = rev (sort_key (\<lambda>i. ks ! i) (rev [0..<length ks]))"
proof -
  have a: "[i \<leftarrow> [0..<length ks]. ks ! i \<noteq> fkey NaN] = [0..<length ks]"
    using assms by (auto intro!: filter_True)
  have b: "[i \<leftarrow> [0..<length ks]. ks ! i = fkey NaN] = []"
    using assms by (auto simp add: filter_empty_conv)
  show ?thesis unfolding argsort_desc_def a b by simp
qed

lemma argsort_desc_props:
  assumes "\<forall>k \<in> set ks. k \<noteq> fkey NaN"
  shows "set (argsort_desc ks) = {..<length ks}"
    and "distinct (argsort_desc ks)"
    and "length (argsort_desc ks) = length ks"
    and "sorted_wrt (\<lambda>i j. ks ! j \<le> ks ! i) (argsort_desc ks)"
proof -
  let ?p = "sort_key (\<lambda>i. ks ! i) (rev [0..<length ks])"
  have p: "argsort_desc ks = rev ?p" by (rule argsort_desc_no_nan [OF assms])
  show "set (argsort_desc ks) = {..<length ks}" unfolding p by auto
  show "distinct (argsort_desc ks)" unfolding p by simp
  show "length (argsort_desc ks) = length ks" unfolding p by simp
  have "sorted (map (\<lambda>i. ks ! i) ?p)" by (rule sorted_sort_key)
  then have "sorted_wrt (\<lambda>i j. ks ! i \<le> ks ! j) ?p"
    by (simp add: sorted_wrt_map)
  then show "sorted_wrt (\<lambda>i j. ks ! j \<le> ks ! i) (argsort_desc ks)"
    unfolding p by (simp add: sorted_wrt_rev)
qed

text \<open>
  Claim C4. On a cleaned table (in particular one filtered to a year), the year breakdown
  succeeds and is the table of the rows at positions \<open>idxs\<close> of the filtered table, where
  \<open>idxs\<close> are \<open>min 10 n\<close> distinct positions of its \<open>n\<close> rows, in descending order of
  \<^verbatim>\<open>Total Budget (INR Cr)\<close>, and no row left out has a larger Total Budget than a row
  taken.
\<close>

theorem top10_breakdown:
  assumes "clean_table f"
  shows "\<exists>top idxs vs.
           df_year_breakdown f = Inr top \<and>
           getcol f ''Total Budget (INR Cr)'' = Inr vs \<and>
           top = iloc idxs f \<and> rows_of top = map (row_at f) idxs \<and>
           nrows top = min 10 (nrows f) \<and> length idxs = min 10 (nrows f) \<and>
           distinct idxs \<and> set idxs \<subseteq> {..<nrows f} \<and>
           sorted_wrt (\<lambda>i j. num_le (vs ! j) (vs ! i)) idxs \<and>
           (\<forall>i \<in> set idxs. \<forall>j < nrows f. j \<notin> set idxs \<longrightarrow> num_le (vs ! j) (vs ! i))"
proof -
  from assms obtain vs where
    wf: "wf_df f" and vs: "map_of f ''Total Budget (INR Cr)'' = Some vs" and
    num: "list_all is_number vs"
    by (auto simp add: clean_table_def col_all_iff)
  from vs have ne: "f \<noteq> []" by auto
  have n: "length vs = nrows f" by (rule wf_df_length [OF wf vs])
  define ks where "ks = map (\<lambda>v. the (num_key v)) vs"
  define perm where "perm = argsort_desc ks"
  define idxs where "idxs = take 10 perm"
  have lk: "length ks = nrows f" by (simp add: ks_def n)
  have nonan: "\<forall>k \<in> set ks. k \<noteq> fkey NaN"
  proof
    fix k assume "k \<in> set ks"
    then obtain v where v: "v \<in> set vs" "k = the (num_key v)" by (auto simp add: ks_def)
    from num v(1) have "is_number v" by (simp add: list_all_iff)
    from is_number_key_not_nan [OF this] v(2) show "k \<noteq> fkey NaN" by simp
  qed
  note pp = argsort_desc_props [OF nonan, folded perm_def]
  have keys: "\<forall>v \<in> set vs. num_key v \<noteq> None"
    using num unfolding list_all_iff using is_number_num_key by blast
  have le: "\<And>i j. i < nrows f \<Longrightarrow> j < nrows f \<Longrightarrow> num_le (vs ! j) (vs ! i) \<longleftrightarrow> ks ! j \<le> ks ! i"
  proof -
    fix i j assume "i < nrows f" "j < nrows f"
    then have l: "i < length vs" "j < length vs"
      using n by simp_all
    from keys have "\<forall>k < length vs. num_key (vs ! k) \<noteq> None"
      by (simp add: all_set_conv_all_nth)
    with l obtain x y where "num_key (vs ! i) = Some x" "num_key (vs ! j) = Some y"
      by fastforce
    with l show "num_le (vs ! j) (vs ! i) \<longleftrightarrow> ks ! j \<le> ks ! i"
      by (simp add: num_le_def ks_def)
  qed
  have s: "sort_values_desc f ''Total Budget (INR Cr)'' = Inr (iloc perm f)"
    using vs keys by (simp add: sort_values_desc_def getcol_def perm_def ks_def)
  have b: "df_year_breakdown f = Inr (iloc idxs f)"
    by (simp add: df_year_breakdown_def s head_iloc idxs_def)
  have g: "getcol f ''Total Budget (INR Cr)'' = Inr vs"
    using vs by (simp add: getcol_Inr_iff)
  have r: "rows_of (iloc idxs f) = map (row_at f) idxs" by (rule rows_of_iloc [OF ne])
  have li: "length idxs = min 10 (nrows f)"
    using pp(3) lk by (simp add: idxs_def min.commute)
  have nr: "nrows (iloc idxs f) = min 10 (nrows f)"
    using nrows_iloc [OF ne, of idxs] li by simp
  have di: "distinct idxs" using pp(2) by (simp add: idxs_def)
  have si: "set idxs \<subseteq> {..<nrows f}"
    using pp(1) lk set_take_subset [of 10 perm] by (auto simp add: idxs_def)
  have split: "sorted_wrt (\<lambda>i j. ks ! j \<le> ks ! i) (take 10 perm @ drop 10 perm)"
    using pp(4) by simp
  then have "sorted_wrt (\<lambda>i j. ks ! j \<le> ks ! i) idxs"
    unfolding sorted_wrt_append by (simp add: idxs_def)
  then have so: "sorted_wrt (\<lambda>i j. num_le (vs ! j) (vs ! i)) idxs"
  proof (rule sorted_wrt_mono_rel [rotated])
    fix i j assume a: "i \<in> set idxs" "j \<in> set idxs" "ks ! j \<le> ks ! i"
    with si have "i < nrows f" "j < nrows f" by auto
    from le [OF this] a(3) show "num_le (vs ! j) (vs ! i)" by simp
  qed
  have top: "\<forall>i \<in> set idxs. \<forall>j < nrows f. j \<notin> set idxs \<longrightarrow> num_le (vs ! j) (vs ! i)"
  proof (intro ballI allI impI)
    fix i j assume i: "i \<in> set idxs" and j: "j < nrows f" "j \<notin> set idxs"
    have "set perm = set (take 10 perm) \<union> set (drop 10 perm)"
      by (metis append_take_drop_id set_append)
    with j pp(1) lk have "j \<in> set (drop 10 perm)" by (auto simp add: idxs_def)
    with split i have "ks ! j \<le> ks ! i"
      unfolding sorted_wrt_append by (simp add: idxs_def)
    moreover from i si have "i < nrows f" by auto
    ultimately show "num_le (vs ! j) (vs ! i)" using le j(1) by simp
  qed
  have "df_year_breakdown f = Inr (iloc idxs f) \<and>
        getcol f ''Total Budget (INR Cr)'' = Inr vs \<and>
        iloc idxs f = iloc idxs f \<and> rows_of (iloc idxs f) = map (row_at f) idxs \<and>
        nrows (iloc idxs f) = min 10 (nrows f) \<and> length idxs = min 10 (nrows f) \<and>
        distinct idxs \<and> set idxs \<subseteq> {..<nrows f} \<and>
        sorted_wrt (\<lambda>i j. num_le (vs ! j) (vs ! i)) idxs \<and>
        (\<forall>i \<in> set idxs. \<forall>j < nrows f. j \<notin> set idxs \<longrightarrow> num_le (vs ! j) (vs ! i))"
    by (intro conjI b g refl r nr li di si so top)
  then show ?thesis
    by (intro exI)
qed

text \<open>
  Twelve ministries in 2016: the breakdown keeps ten rows, Finance (250) first and
  Agriculture (5) last; Tourism (3) and Health (1) are left out.
\<close>

theorem top10_breakdown_witness:
  "clean_table year_table \<and> nrows year_table = 12 \<and>
   df_year_breakdown year_table = Inr (iloc [5, 1, 4, 10, 7, 9, 2, 8, 3, 0] year_table) \<and>
   nrows (iloc [5, 1, 4, 10, 7, 9, 2, 8, 3, 0] year_table) = min 10 (nrows year_table)"
proof -
  have c: "clean_table year_table"
    by code_simp
  have n: "nrows year_table = 12"
    by code_simp
  have e: "df_year_breakdown year_table = Inr (iloc [5, 1, 4, 10, 7, 9, 2, 8, 3, 0] year_table)"
    by code_simp
  from top10_breakdown [OF c] e
  have "nrows (iloc [5, 1, 4, 10, 7, 9, 2, 8, 3, 0] year_table) = min 10 (nrows year_table)"
    by auto
  with c n e show ?thesis by simp
qed

subsection \<open>The long form of plan and non-plan amounts\<close>

lemma rows_of_three:
  assumes "length bs = length as" "length cs = length as"
  shows "rows_of [(ka, as), (kb, bs), (kc, cs)] =
         map (\<lambda>(a, b, c). [(ka, a), (kb, b), (kc, c)]) (zip as (zip bs cs))"
proof (rule nth_equalityI)
  show "length (rows_of [(ka, as), (kb, bs), (kc, cs)]) =
        length (map (\<lambda>(a, b, c). [(ka, a), (kb, b), (kc, c)]) (zip as (zip bs cs)))"
    using assms by (simp add: rows_of_def nrows_def)
next
  fix i assume "i < length (rows_of [(ka, as), (kb, bs), (kc, cs)])"
  then have "i < length as" by (simp add: rows_of_def nrows_def)
  then show "rows_of [(ka, as), (kb, bs), (kc, cs)] ! i =
        map (\<lambda>(a, b, c). [(ka, a), (kb, b), (kc, c)]) (zip as (zip bs cs)) ! i"
    using assms by (simp add: rows_of_def nrows_def row_at_def)
qed

lemma zip3_append_const:
  assumes "length ps = length ys" "length ns = length ys"
  shows "map (\<lambda>(a, b, c). [(ka, a), (kb, b), (kc, c)])
           (zip (ys @ ys) (zip (map (\<lambda>_. PyStr t1) ps @ map (\<lambda>_. PyStr t2) ns) (ps @ ns))) =
         map (\<lambda>ya. [(ka, fst ya), (kb, PyStr t1), (kc, snd ya)]) (zip ys ps) @
         map (\<lambda>ya. [(ka, fst ya), (kb, PyStr t2), (kc, snd ya)]) (zip ys ns)"
proof -
  have a: "zip (map (\<lambda>_. PyStr t1) ps @ map (\<lambda>_. PyStr t2) ns) (ps @ ns) =
           zip (map (\<lambda>_. PyStr t1) ps) ps @ zip (map (\<lambda>_. PyStr t2) ns) ns"
    by simp
  have b: "zip (ys @ ys) (zip (map (\<lambda>_. PyStr t1) ps) ps @ zip (map (\<lambda>_. PyStr t2) ns) ns) =
           zip ys (zip (map (\<lambda>_. PyStr t1) ps) ps) @ zip ys (zip (map (\<lambda>_. PyStr t2) ns) ns)"
    using assms by simp
  have c: "\<And>t vs. length vs = length ys \<Longrightarrow>
      map (\<lambda>(a, b, c). [(ka, a), (kb, b), (kc, c)]) (zip ys (zip (map (\<lambda>_. PyStr t) vs) vs)) =
      map (\<lambda>ya. [(ka, fst ya), (kb, PyStr t), (kc, snd ya)]) (zip ys vs)"
  proof -
    fix t :: string and vs :: "cell list"
    assume "length vs = length ys"
    then show "map (\<lambda>(a, b, c). [(ka, a), (kb, b), (kc, c)]) (zip ys (zip (map (\<lambda>_. PyStr t) vs) vs)) =
      map (\<lambda>ya. [(ka, fst ya), (kb, PyStr t), (kc, snd ya)]) (zip ys vs)"
      by (intro nth_equalityI) simp_all
  qed
  show ?thesis unfolding a b using assms by (simp add: c)
qed

text \<open>
  Claim C8, as amended. On a cleaned table filtered to one ministry, the ministry
  breakdown succeeds and is the long form with the columns \<^verbatim>\<open>Start Year\<close>, \<^verbatim>\<open>Type\<close>,
  \<^verbatim>\<open>Amount\<close> and exactly one row per row of the filtered table and category: first every
  row with its \<^verbatim>\<open>Total (Plan)\<close>, then every row with its \<^verbatim>\<open>Total (Non-Plan)\<close>, twice
  as many rows as the filtered table has. Rows of the same start year are not merged; the
  pairs of start year and category are distinct when the start years of the filtered
  rows are.
\<close>

theorem plan_nonplan_long_form:
  assumes "clean_table f"
  shows "\<exists>ys ps ns out.
           getcol f ''Start Year'' = Inr ys \<and>
           getcol f ''Total (Plan)'' = Inr ps \<and>
           getcol f ''Total (Non-Plan)'' = Inr ns \<and>
           df_plan_nonplan f = Inr out \<and>
           (\<not> py_eq selected_ministry (PyStr ''All Ministries'') \<longrightarrow>
              detailed_breakdown f selected_ministry (PyStr ''All Years'') = Inr (PlanVsNonPlan out)) \<and>
           columns out = [''Start Year'', ''Type'', ''Amount''] \<and>
           nrows out = 2 * nrows f \<and>
           rows_of out =
             map (long_row ''Total (Plan)'') (zip ys ps) @
             map (long_row ''Total (Non-Plan)'') (zip ys ns) \<and>
           (distinct ys \<longrightarrow>
              distinct (map (\<lambda>r. (field r ''Start Year'', field r ''Type'')) (rows_of out)))"
proof -
  from assms obtain ys ps ns where
    wf: "wf_df f" and
    m: "map_of f ''Start Year'' = Some ys" "map_of f ''Total (Plan)'' = Some ps"
       "map_of f ''Total (Non-Plan)'' = Some ns"
    by (auto simp add: clean_table_def col_all_iff)
  have g: "getcol f ''Start Year'' = Inr ys" "getcol f ''Total (Plan)'' = Inr ps"
       "getcol f ''Total (Non-Plan)'' = Inr ns"
    using m by (simp_all add: getcol_Inr_iff)
  have l: "length ys = nrows f" "length ps = nrows f" "length ns = nrows f"
    using wf m by (simp_all add: wf_df_length)
  define out where "out =
     [(''Start Year'', ys @ ys),
      (''Type'', map (\<lambda>_. PyStr ''Total (Plan)'') ps @ map (\<lambda>_. PyStr ''Total (Non-Plan)'') ns),
      (''Amount'', ps @ ns)]"
  have d: "df_plan_nonplan f = Inr out"
    unfolding out_def by (rule df_plan_nonplan_eq [OF g])
  have b: "\<not> py_eq selected_ministry (PyStr ''All Ministries'') \<longrightarrow>
              detailed_breakdown f selected_ministry (PyStr ''All Years'') = Inr (PlanVsNonPlan out)"
    by (simp add: detailed_breakdown_def d)
  have c: "columns out = [''Start Year'', ''Type'', ''Amount'']"
    by (simp add: out_def columns_def)
  have n: "nrows out = 2 * nrows f"
    using l by (simp add: out_def nrows_def)
  have "rows_of out =
     map (\<lambda>(a, b, c). [(''Start Year'', a), (''Type'', b), (''Amount'', c)])
       (zip (ys @ ys)
         (zip (map (\<lambda>_. PyStr ''Total (Plan)'') ps @ map (\<lambda>_. PyStr ''Total (Non-Plan)'') ns)
              (ps @ ns)))"
    unfolding out_def using l by (intro rows_of_three) simp_all
  also have "\<dots> =
     map (\<lambda>ya. [(''Start Year'', fst ya), (''Type'', PyStr ''Total (Plan)''), (''Amount'', snd ya)])
       (zip ys ps) @
     map (\<lambda>ya. [(''Start Year'', fst ya), (''Type'', PyStr ''Total (Non-Plan)''), (''Amount'', snd ya)])
       (zip ys ns)"
    using l by (intro zip3_append_const) simp_all
  also have "\<dots> = map (long_row ''Total (Plan)'') (zip ys ps) @
                  map (long_row ''Total (Non-Plan)'') (zip ys ns)"
    by (simp add: long_row_def [abs_def])
  finally have r: "rows_of out =
     map (long_row ''Total (Plan)'') (zip ys ps) @ map (long_row ''Total (Non-Plan)'') (zip ys ns)" .
  have k: "\<And>t vs. length vs = length ys \<Longrightarrow>
     map (\<lambda>r. (field r ''Start Year'', field r ''Type'')) (map (long_row t) (zip ys vs)) =
     map (\<lambda>y. (Some y, Some (PyStr t))) ys"
  proof -
    fix t :: string and vs :: "cell list"
    assume "length vs = length ys"
    then show "map (\<lambda>r. (field r ''Start Year'', field r ''Type'')) (map (long_row t) (zip ys vs)) =
       map (\<lambda>y. (Some y, Some (PyStr t))) ys"
      by (intro nth_equalityI) (simp_all add: long_row_def field_def)
  qed
  have e: "distinct ys \<longrightarrow>
      distinct (map (\<lambda>r. (field r ''Start Year'', field r ''Type'')) (rows_of out))"
  proof
    assume dy: "distinct ys"
    have k1: "map (\<lambda>r. (field r ''Start Year'', field r ''Type''))
                (map (long_row ''Total (Plan)'') (zip ys ps)) =
              map (\<lambda>y. (Some y, Some (PyStr ''Total (Plan)''))) ys"
      by (rule k) (simp add: l)
    have k2: "map (\<lambda>r. (field r ''Start Year'', field r ''Type''))
                (map (long_row ''Total (Non-Plan)'') (zip ys ns)) =
              map (\<lambda>y. (Some y, Some (PyStr ''Total (Non-Plan)''))) ys"
      by (rule k) (simp add: l)
    have "distinct (map (\<lambda>y. (Some y, Some (PyStr ''Total (Plan)''))) ys @
                    map (\<lambda>y. (Some y, Some (PyStr ''Total (Non-Plan)''))) ys)"
      using dy by (auto simp add: distinct_map inj_on_def)
    then show "distinct (map (\<lambda>r. (field r ''Start Year'', field r ''Type'')) (rows_of out))"
      unfolding r map_append k1 k2 .
  qed
  have "getcol f ''Start Year'' = Inr ys \<and>
           getcol f ''Total (Plan)'' = Inr ps \<and>
           getcol f ''Total (Non-Plan)'' = Inr ns \<and>
           df_plan_nonplan f = Inr out \<and>
           (\<not> py_eq selected_ministry (PyStr ''All Ministries'') \<longrightarrow>
              detailed_breakdown f selected_ministry (PyStr ''All Years'') = Inr (PlanVsNonPlan out)) \<and>
           columns out = [''Start Year'', ''Type'', ''Amount''] \<and>
           nrows out = 2 * nrows f \<and>
           rows_of out =
             map (long_row ''Total (Plan)'') (zip ys ps) @
             map (long_row ''Total (Non-Plan)'') (zip ys ns) \<and>
           (distinct ys \<longrightarrow>
              distinct (map (\<lambda>r. (field r ''Start Year'', field r ''Type'')) (rows_of out)))"
    by (intro conjI g d b c n r e)
  then show ?thesis by (intro exI)
qed

text \<open>
  The example with Health selected and all years: one row passes, and the long form has
  one row for each of the two categories of 2015.
\<close>

theorem plan_nonplan_long_form_witness:
  "clean_table (iloc [1] example_clean) \<and>
   apply_filters example_clean (PyStr ''Health'') (PyStr ''All Years'') = Inr (iloc [1] example_clean) \<and>
   detailed_breakdown (iloc [1] example_clean) (PyStr ''Health'') (PyStr ''All Years'') =
     Inr (PlanVsNonPlan
       [(''Start Year'', [PyInt 2015, PyInt 2015]),
        (''Type'', [PyStr ''Total (Plan)'', PyStr ''Total (Non-Plan)'']),
        (''Amount'', [PyFloat (Finite 10), PyFloat (Finite 0)])])"
proof -
  have c: "clean_table (iloc [1] example_clean)"
    by code_simp
  have a: "apply_filters example_clean (PyStr ''Health'') (PyStr ''All Years'') = Inr (iloc [1] example_clean)"
    by code_simp
  have d: "df_plan_nonplan (iloc [1] example_clean) =
     Inr [(''Start Year'', [PyInt 2015, PyInt 2015]),
          (''Type'', [PyStr ''Total (Plan)'', PyStr ''Total (Non-Plan)'']),
          (''Amount'', [PyFloat (Finite 10), PyFloat (Finite 0)])]"
    by code_simp
  have n: "\<not> py_eq (PyStr ''Health'') (PyStr ''All Ministries'')"
    by simp
  from plan_nonplan_long_form [OF c, of "PyStr ''Health''"] d n
  have "detailed_breakdown (iloc [1] example_clean) (PyStr ''Health'') (PyStr ''All Years'') =
     Inr (PlanVsNonPlan
       [(''Start Year'', [PyInt 2015, PyInt 2015]),
        (''Type'', [PyStr ''Total (Plan)'', PyStr ''Total (Non-Plan)'']),
        (''Amount'', [PyFloat (Finite 10), PyFloat (Finite 0)])])"
    by auto
  with c a show ?thesis by simp
qed

text \<open>
  Claim C8, as stated, at the example with Defence selected and all years. Defence has
  two rows for 2015-2016, so the long form has two rows of start year 2015 and category
  \<^verbatim>\<open>Total (Plan)\<close>, with the amounts 4.5 and 1: six rows, not one for each of the four
  pairs of a start year and a category.
\<close>

theorem one_row_per_year_counterexample:
  "apply_filters example_clean (PyStr ''Defence'') (PyStr ''All Years'') =
     Inr (iloc [0, 2, 3] example_clean) \<and>
   detailed_breakdown (iloc [0, 2, 3] example_clean) (PyStr ''Defence'') (PyStr ''All Years'') =
     Inr (PlanVsNonPlan
       [(''Start Year'', [PyInt 2015, PyInt 2015, PyInt 2016, PyInt 2015, PyInt 2015, PyInt 2016]),
        (''Type'', [PyStr ''Total (Plan)'', PyStr ''Total (Plan)'', PyStr ''Total (Plan)'',
                    PyStr ''Total (Non-Plan)'', PyStr ''Total (Non-Plan)'', PyStr ''Total (Non-Plan)'']),
        (''Amount'', [PyFloat (Finite (9 / 2)), PyFloat (Finite 1), PyFloat (Finite 4),
                      PyFloat (Finite 1230), PyFloat (Finite 8), PyFloat (Finite 8)])]) \<and>
   \<not> distinct
       (zip [PyInt 2015, PyInt 2015, PyInt 2016, PyInt 2015, PyInt 2015, PyInt 2016]
            [PyStr ''Total (Plan)'', PyStr ''Total (Plan)'', PyStr ''Total (Plan)'',
             PyStr ''Total (Non-Plan)'', PyStr ''Total (Non-Plan)'', PyStr ''Total (Non-Plan)''])"
proof -
  have a: "apply_filters example_clean (PyStr ''Defence'') (PyStr ''All Years'') =
     Inr (iloc [0, 2, 3] example_clean)"
    by code_simp
  have b: "detailed_breakdown (iloc [0, 2, 3] example_clean) (PyStr ''Defence'') (PyStr ''All Years'') =
     Inr (PlanVsNonPlan
       [(''Start Year'', [PyInt 2015, PyInt 2015, PyInt 2016, PyInt 2015, PyInt 2015, PyInt 2016]),
        (''Type'', [PyStr ''Total (Plan)'', PyStr ''Total (Plan)'', PyStr ''Total (Plan)'',
                    PyStr ''Total (Non-Plan)'', PyStr ''Total (Non-Plan)'', PyStr ''Total (Non-Plan)'']),
        (''Amount'', [PyFloat (Finite (9 / 2)), PyFloat (Finite 1), PyFloat (Finite 4),
                      PyFloat (Finite 1230), PyFloat (Finite 8), PyFloat (Finite 8)])])"
    by code_simp
  have c: "\<not> distinct
       (zip [PyInt 2015, PyInt 2015, PyInt 2016, PyInt 2015, PyInt 2015, PyInt 2016]
            [PyStr ''Total (Plan)'', PyStr ''Total (Plan)'', PyStr ''Total (Plan)'',
             PyStr ''Total (Non-Plan)'', PyStr ''Total (Non-Plan)'', PyStr ''Total (Non-Plan)''])"
    by simp
  from a b c show ?thesis by (intro conjI)
qed

subsection \<open>Integers below \<open>2 ^ 53\<close> are added without rounding\<close>

lemma pow2_pos: "0 < pow2 p"
  by (simp add: pow2_def)

lemma pow2_nonneg_eq: "0 \<le> p \<Longrightarrow> pow2 p = of_int (2 ^ nat p)"
  by (simp add: pow2_def)

lemma pow2_cancel: "p \<le> 0 \<Longrightarrow> pow2 (- p) * pow2 p = 1"
  by (simp add: pow2_def)

lemma round_half_even_of_int: "round_half_even (of_int m) = m"
  by (simp add: round_half_even_def)

lemma scaled_int_exact:
  assumes "p \<le> 0"
  shows "of_int (round_half_even (of_int k * pow2 (- p))) * pow2 p = (of_int k :: rat)"
proof -
  from assms have "of_int k * pow2 (- p) = (of_int (k * 2 ^ nat (- p)) :: rat)"
    by (simp add: pow2_def)
  then have "round_half_even (of_int k * pow2 (- p)) = k * 2 ^ nat (- p)"
    by (simp only: round_half_even_of_int)
  then have "of_int (round_half_even (of_int k * pow2 (- p))) * pow2 p =
             (of_int k :: rat) * (pow2 (- p) * pow2 p)"
    using assms by (simp add: pow2_def)
  then show ?thesis using assms by (simp only: pow2_cancel mult_1_right)
qed

lemma ilog2_of_int:
  assumes "0 < m"
  shows "ilog2 (of_int m) = bitlen m - 1"
proof -
  have q: "quotient_of (of_int m) = (m, 1)"
    using quotient_of_int [of m] by (simp add: Rat.of_int_def)
  have b1: "bitlen 1 = 1" by (simp add: bitlen_alt_def)
  from assms have "1 \<le> bitlen m" by (auto simp add: bitlen_alt_def)
  then have "pow2 (bitlen m - 1) = of_int (2 ^ nat (bitlen m - 1))"
    by (simp add: pow2_def)
  also have "\<dots> \<le> (of_int m :: rat)"
    using bitlen_bounds [OF assms] by (simp only: of_int_le_iff)
  finally have "pow2 (bitlen m - 1) \<le> of_int m" .
  then show ?thesis by (simp add: ilog2_def q b1)
qed

lemma bitlen_le_53:
  assumes "0 < m" "m < 2 ^ 53"
  shows "bitlen m \<le> 53"
proof (rule ccontr)
  assume "\<not> bitlen m \<le> 53"
  then have "54 \<le> bitlen m" by simp
  then have "(53::nat) \<le> nat (bitlen m - 1)" by simp
  then have "(2::int) ^ 53 \<le> 2 ^ nat (bitlen m - 1)"
    by (intro power_increasing) simp_all
  also have "\<dots> \<le> m" using bitlen_bounds [OF assms(1)] by simp
  finally show False using assms(2) by simp
qed

lemma round64_of_int:
  assumes "\<bar>k\<bar> < 2 ^ 53"
  shows "round64 (of_int k) = Finite (of_int k)"
proof (cases "k = 0")
  case True
  then show ?thesis by (simp add: round64_def)
next
  case False
  then have pos: "0 < \<bar>k\<bar>" by simp
  have e: "ilog2 \<bar>of_int k\<bar> = bitlen \<bar>k\<bar> - 1"
    using ilog2_of_int [OF pos] by simp
  have b: "bitlen \<bar>k\<bar> \<le> 53" by (rule bitlen_le_53 [OF pos assms])
  have b0: "1 \<le> bitlen \<bar>k\<bar>" using pos by (auto simp add: bitlen_alt_def)
  define p where "p = max (bitlen \<bar>k\<bar> - 1 - 52) (- 1074)"
  have p: "p \<le> 0" using b by (simp add: p_def)
  have v: "of_int (round_half_even (of_int k * pow2 (- p))) * pow2 p = (of_int k :: rat)"
    by (rule scaled_int_exact [OF p])
  have "\<not> 1024 \<le> ilog2 \<bar>of_int k\<bar>" using e b by simp
  moreover have "(of_int k :: rat) \<noteq> 0" using False by simp
  ultimately show ?thesis
    unfolding round64_def Let_def e p_def [symmetric] v
    using e by simp
qed

lemma fadd_ints:
  assumes "\<bar>a + b\<bar> < 2 ^ 53"
  shows "fadd (Finite (of_int a)) (Finite (of_int b)) = Finite (of_int (a + b))"
  using round64_of_int [OF assms] by simp

lemma foldl_fadd_ints:
  "\<bar>a\<bar> + (\<Sum>k\<leftarrow>ks. \<bar>k\<bar>) < 2 ^ 53 \<Longrightarrow>
   foldl fadd (Finite (of_int a)) (map (\<lambda>k. Finite (of_int k)) ks) = Finite (of_int (a + sum_list ks))"
proof (induction ks arbitrary: a)
  case Nil
  then show ?case by simp
next
  case (Cons k ks)
  have s: "\<bar>a + k\<bar> \<le> \<bar>a\<bar> + \<bar>k\<bar>" by simp
  have nn: "0 \<le> (\<Sum>k\<leftarrow>ks. \<bar>k\<bar>)" by (induction ks) simp_all
  from Cons.prems s nn have 1: "\<bar>a + k\<bar> < 2 ^ 53" by simp
  from Cons.prems s have 2: "\<bar>a + k\<bar> + (\<Sum>k\<leftarrow>ks. \<bar>k\<bar>) < 2 ^ 53" by simp
  have "foldl fadd (Finite (of_int a)) (map (\<lambda>k. Finite (of_int k)) (k # ks)) =
        foldl fadd (fadd (Finite (of_int a)) (Finite (of_int k))) (map (\<lambda>k. Finite (of_int k)) ks)"
    by (simp only: list.map foldl_Cons)
  also have "\<dots> = foldl fadd (Finite (of_int (a + k))) (map (\<lambda>k. Finite (of_int k)) ks)"
    by (simp only: fadd_ints [OF 1])
  also have "\<dots> = Finite (of_int (a + k + sum_list ks))"
    by (rule Cons.IH [OF 2])
  finally show ?case by (simp add: add.assoc)
qed

lemma fsum_ints:
  "(\<Sum>k\<leftarrow>ks. \<bar>k\<bar>) < 2 ^ 53 \<Longrightarrow>
   fsum (map (\<lambda>k. Finite (of_int k)) ks) = Finite (of_int (sum_list ks))"
  using foldl_fadd_ints [of 0 ks] by (simp add: fsum_def)

lemma map_exc_float_of: "map_exc float_of (map PyFloat fs) = Inr fs"
  by (induction fs) simp_all

lemma sum_col_ints:
  assumes "(\<Sum>k\<leftarrow>ks. \<bar>k\<bar>) < 2 ^ 53"
  shows "sum_col (map (\<lambda>k. PyFloat (Finite (of_int k))) ks) = Inr (Finite (of_int (sum_list ks)))"
proof -
  have "map (\<lambda>k. PyFloat (Finite (of_int k))) ks = map PyFloat (map (\<lambda>k. Finite (of_int k)) ks)"
    by simp
  then have "sum_col (map (\<lambda>k. PyFloat (Finite (of_int k))) ks) =
             Inr (fsum [f \<leftarrow> map (\<lambda>k. Finite (of_int k)) ks. f \<noteq> NaN])"
    by (simp only: sum_col_def map_exc_float_of and_then_Inr)
  also have "[f \<leftarrow> map (\<lambda>k. Finite (of_int k)) ks. f \<noteq> NaN] = map (\<lambda>k. Finite (of_int k)) ks"
    by (induction ks) simp_all
  finally show ?thesis by (simp add: fsum_ints [OF assms])
qed

subsection \<open>Groups partition the rows\<close>

lemma sum_list_delta_notin:
  fixes v :: "'a::comm_monoid_add"
  shows "k \<notin> set gs \<Longrightarrow> (\<Sum>g\<leftarrow>gs. if k = g then v else 0) = 0"
  by (induction gs) auto

lemma sum_list_delta:
  fixes v :: "'a::comm_monoid_add"
  assumes "distinct gs" "k \<in> set gs"
  shows "(\<Sum>g\<leftarrow>gs. if k = g then v else 0) = v"
  using assms by (induction gs) (auto simp add: sum_list_delta_notin)

lemma group_sums_partition:
  fixes kvs :: "('k \<times> 'a::comm_monoid_add) list"
  assumes "distinct gs" "fst ` set kvs \<subseteq> set gs"
  shows "(\<Sum>g\<leftarrow>gs. sum_list (map snd [kv \<leftarrow> kvs. fst kv = g])) = sum_list (map snd kvs)"
  using assms(2)
proof (induction kvs)
  case Nil
  then show ?case by simp
next
  case (Cons kv kvs)
  have "(\<Sum>g\<leftarrow>gs. sum_list (map snd [x \<leftarrow> kv # kvs. fst x = g])) =
        (\<Sum>g\<leftarrow>gs. (if fst kv = g then snd kv else 0) + sum_list (map snd [x \<leftarrow> kvs. fst x = g]))"
    by (intro arg_cong [where f = sum_list] map_cong) auto
  also have "\<dots> = (\<Sum>g\<leftarrow>gs. if fst kv = g then snd kv else 0) +
                  (\<Sum>g\<leftarrow>gs. sum_list (map snd [x \<leftarrow> kvs. fst x = g]))"
    by (simp add: sum_list_addf)
  also have "(\<Sum>g\<leftarrow>gs. if fst kv = g then snd kv else 0) = snd kv"
    using Cons.prems by (intro sum_list_delta [OF assms(1)]) simp
  also have "(\<Sum>g\<leftarrow>gs. sum_list (map snd [x \<leftarrow> kvs. fst x = g])) = sum_list (map snd kvs)"
    using Cons.prems by (intro Cons.IH) simp
  finally show ?case by simp
qed

lemma abs_group_sum_le:
  fixes kvs :: "('k \<times> int) list"
  shows "\<bar>sum_list (map snd [kv \<leftarrow> kvs. P kv])\<bar> \<le> (\<Sum>kv\<leftarrow>[kv \<leftarrow> kvs. P kv]. \<bar>snd kv\<bar>)"
  by (induction kvs) auto

lemma abs_sum_filter_le:
  fixes kvs :: "('k \<times> int) list"
  shows "(\<Sum>kv\<leftarrow>[kv \<leftarrow> kvs. P kv]. \<bar>snd kv\<bar>) \<le> (\<Sum>kv\<leftarrow>kvs. \<bar>snd kv\<bar>)"
  by (induction kvs) auto

lemma abs_group_sums_le:
  fixes kvs :: "('k \<times> int) list"
  assumes "distinct gs" "fst ` set kvs \<subseteq> set gs"
  shows "(\<Sum>g\<leftarrow>gs. \<bar>sum_list (map snd [kv \<leftarrow> kvs. fst kv = g])\<bar>) \<le> (\<Sum>kv\<leftarrow>kvs. \<bar>snd kv\<bar>)"
proof -
  have "(\<Sum>g\<leftarrow>gs. \<bar>sum_list (map snd [kv \<leftarrow> kvs. fst kv = g])\<bar>) \<le>
        (\<Sum>g\<leftarrow>gs. sum_list (map snd [kv \<leftarrow> map (\<lambda>kv. (fst kv, \<bar>snd kv\<bar>)) kvs. fst kv = g]))"
  proof (rule sum_list_mono)
    fix g
    have "\<bar>sum_list (map snd [kv \<leftarrow> kvs. fst kv = g])\<bar> \<le> (\<Sum>kv\<leftarrow>[kv \<leftarrow> kvs. fst kv = g]. \<bar>snd kv\<bar>)"
      by (rule abs_group_sum_le)
    also have "\<dots> = sum_list (map snd [kv \<leftarrow> map (\<lambda>kv. (fst kv, \<bar>snd kv\<bar>)) kvs. fst kv = g])"
      by (simp add: filter_map comp_def)
    finally show "\<bar>sum_list (map snd [kv \<leftarrow> kvs. fst kv = g])\<bar> \<le>
        sum_list (map snd [kv \<leftarrow> map (\<lambda>kv. (fst kv, \<bar>snd kv\<bar>)) kvs. fst kv = g])" .
  qed
  also have "\<dots> = sum_list (map snd (map (\<lambda>kv. (fst kv, \<bar>snd kv\<bar>)) kvs))"
    using assms(2) by (intro group_sums_partition [OF assms(1)]) force
  also have "\<dots> = (\<Sum>kv\<leftarrow>kvs. \<bar>snd kv\<bar>)"
    by (simp add: comp_def)
  finally show ?thesis .
qed

end
